theory Spec2Isabelle
  imports Complex_Main "HOL-Library.AList" "HOL-Library.Multiset"
begin

section \<open>Data model (lib/types, as documented in README.md)\<close>

text \<open>
  Values that travel through \<^verbatim>\<open>lib/api.ts\<close> are untyped (\<^verbatim>\<open>any\<close>): the result of
  \<^verbatim>\<open>response.json()\<close>, of \<^verbatim>\<open>JSON.parse\<close>, or a missing property (\<^verbatim>\<open>undefined\<close>).
  An object is the list of its own properties in insertion order; numbers are kept as
  rationals (no claim about these values depends on their arithmetic).
\<close>

datatype jsval =
    JUndefined
  | JNull
  | JBool bool
  | JNum rat
  | JStr string
  | JArr "jsval list"
  | JObj "(string \<times> jsval) list"

text \<open>
  A price is a JavaScript number, an IEEE 754 binary64 value: a finite value, kept as
  the rational it is, an infinity or NaN. The sign of a zero is not kept (\<open>Fin 0\<close> is
  both zeros): the only division of the code is by a number that is not zero, and
  nothing else there tells the two zeros apart.
\<close>

datatype double = Fin rat | PInf | NInf | NaN

record installments =
  months :: int
  amount :: double
  interestFree :: bool

record pricing =
  price :: double
  originalPrice :: "double option"
  installments :: "installments option"

text \<open>\<^verbatim>\<open>Variant\<close>: the field \<^verbatim>\<open>id\<close> is named \<open>variant_id\<close> here (\<open>id\<close> is HOL's identity).\<close>

record variant =
  variant_id :: int
  attributes :: "(string \<times> string) list"
  title :: string
  imageIndex :: int
  pricing :: "(string \<times> pricing) list"
  stock :: int

record productInfo =
  condition :: string
  soldCount :: int
  rating :: rat
  reviewsCount :: int

record product_offer =
  productInfo :: productInfo
  variations :: "(string \<times> string) list"
  variants :: "variant list"
  highlightedFeatures :: "string list"

text \<open>\<^verbatim>\<open>QA\<close>: \<^verbatim>\<open>answer: string | null\<close> is an option, \<^verbatim>\<open>isUserGenerated?: boolean\<close> too.\<close>

record qa =
  qa_id :: int
  question :: string
  answer :: "string option"
  isUserGenerated :: "bool option"

text \<open>The \<^verbatim>\<open>useState\<close> cells of \<^verbatim>\<open>App\<close> (App.tsx, lines 25-45).\<close>

record app_state =
  products :: "jsval list"
  currentProductId :: "int option"
  currentProduct :: "jsval option"
  currentOffer :: "product_offer option"
  currentQuestions :: "qa list"
  currentReviews :: "jsval option"
  currentPaymentMethods :: "jsval option"
  currentSeller :: "jsval option"
  selectedVariantId :: "int option"
  quantity :: int
  snackbarMessage :: "string option"
  currency :: string
  loading :: bool
  error :: "string option"

section \<open>Variant resolution (App.tsx, handleVariantChange)\<close>

text \<open>
  \<^verbatim>\<open>const newAttributes = { ...currentVariant.attributes, [attribute]: value }\<close>:
  an existing key keeps its place and takes the new value, a new key is appended.
\<close>

definition newAttributes :: "variant \<Rightarrow> string \<Rightarrow> string \<Rightarrow> (string \<times> string) list" where
  "newAttributes currentVariant attribute value =
     AList.update attribute value (attributes currentVariant)"

text \<open>
  \<^verbatim>\<open>Object.keys(newAttributes).every(key => v.attributes[key] === newAttributes[key])\<close>:
  only the keys of \<^verbatim>\<open>newAttributes\<close> are visited; a missing property of \<^verbatim>\<open>v.attributes\<close>
  reads as \<^verbatim>\<open>undefined\<close> (\<open>None\<close>), which is never equal to a string.
\<close>

definition perfectMatch :: "(string \<times> string) list \<Rightarrow> variant \<Rightarrow> bool" where
  "perfectMatch newAttrs v =
     list_all (\<lambda>key. map_of (attributes v) key = map_of newAttrs key) (map fst newAttrs)"

text \<open>
  Lines 162-170: the first perfect match; failing that the first variant whose changed
  attribute has the new value; failing that the current variant.
\<close>

definition newVariant :: "variant list \<Rightarrow> variant \<Rightarrow> string \<Rightarrow> string \<Rightarrow> variant" where
  "newVariant vs currentVariant attribute value =
     (case find (perfectMatch (newAttributes currentVariant attribute value)) vs of
        Some v \<Rightarrow> v
      | None \<Rightarrow>
          (case find (\<lambda>v. map_of (attributes v) attribute = Some value) vs of
             Some v \<Rightarrow> v
           | None \<Rightarrow> currentVariant))"

text \<open>
  The handler has no \<^verbatim>\<open>throw\<close>: both guards (lines 153 and 156) are plain
  \<^verbatim>\<open>return\<close>s that leave every state cell as it was.
\<close>

definition handleVariantChange :: "app_state \<Rightarrow> string \<Rightarrow> string \<Rightarrow> app_state" where
  "handleVariantChange st attribute value =
     (case currentProduct st of
        None \<Rightarrow> st
      | Some _ \<Rightarrow>
          (case currentOffer st of
             None \<Rightarrow> st
           | Some offer \<Rightarrow>
               (case find (\<lambda>v. Some (variant_id v) = selectedVariantId st) (variants offer) of
                  None \<Rightarrow> st
                | Some currentVariant \<Rightarrow>
                    st\<lparr>selectedVariantId :=
                         Some (variant_id (newVariant (variants offer) currentVariant attribute value)),
                       quantity := 1\<rparr>)))"

text \<open>Example data: a variant with the given id and attributes, a page showing an offer.\<close>

definition mkVariant :: "int \<Rightarrow> (string \<times> string) list \<Rightarrow> variant" where
  "mkVariant i attrs =
     \<lparr>variant_id = i, attributes = attrs, title = [], imageIndex = 0, pricing = [], stock = 1\<rparr>"

definition mkOffer :: "variant list \<Rightarrow> product_offer" where
  "mkOffer vs =
     \<lparr>productInfo = \<lparr>condition = [], soldCount = 0, rating = 0, reviewsCount = 0\<rparr>,
      variations = [], variants = vs, highlightedFeatures = []\<rparr>"

definition readyState :: "variant list \<Rightarrow> int \<Rightarrow> app_state" where
  "readyState vs sel =
     \<lparr>products = [], currentProductId = Some 7, currentProduct = Some (JObj []),
      currentOffer = Some (mkOffer vs),
      currentQuestions = [], currentReviews = None, currentPaymentMethods = None,
      currentSeller = Some (JObj []), selectedVariantId = Some sel, quantity = 3,
      snackbarMessage = None, currency = ''COP'', loading = False, error = None\<rparr>"

text \<open>The variant lists of the specification's examples P4 and P5.\<close>

definition p4_variants :: "variant list" where
  "p4_variants =
     [mkVariant 1 [(''color'', ''A''), (''ram'', ''8'')],
      mkVariant 2 [(''color'', ''A''), (''ram'', ''16'')],
      mkVariant 3 [(''color'', ''B''), (''ram'', ''8'')]]"

definition p5_variants :: "variant list" where
  "p5_variants =
     [mkVariant 1 [(''color'', ''A''), (''ram'', ''8'')],
      mkVariant 2 [(''color'', ''B''), (''ram'', ''16'')]]"

text \<open>A list in which the second variant carries a key the others do not have.\<close>

definition extra_key_variants :: "variant list" where
  "extra_key_variants =
     [mkVariant 1 [(''color'', ''A''), (''ram'', ''8'')],
      mkVariant 2 [(''color'', ''A''), (''ram'', ''16''), (''size'', ''L'')],
      mkVariant 3 [(''color'', ''A''), (''ram'', ''16'')]]"

text \<open>
  A list in which no variant has exactly the attributes (color A, ram 16), the third
  has them and one more, and the second is the first with ram 16.
\<close>

definition superset_variants :: "variant list" where
  "superset_variants =
     [mkVariant 1 [(''color'', ''A''), (''ram'', ''8'')],
      mkVariant 2 [(''color'', ''B''), (''ram'', ''16'')],
      mkVariant 3 [(''color'', ''A''), (''ram'', ''16''), (''size'', ''L'')]]"

section \<open>Question list mutations (App.tsx, lines 180-201; Questions.tsx)\<close>

text \<open>
  \<^verbatim>\<open>handleFormSubmit\<close> builds the optimistic entry with a temporary id
  (\<^verbatim>\<open>Date.now()\<close>) and a \<^verbatim>\<open>null\<close> answer, and hands it to \<^verbatim>\<open>onAddQuestion\<close>.
\<close>

definition newQ :: "int \<Rightarrow> string \<Rightarrow> qa" where
  "newQ tempId userQuestion =
     \<lparr>qa_id = tempId, question = userQuestion, answer = None, isUserGenerated = Some True\<rparr>"

definition handleAddQuestion :: "app_state \<Rightarrow> qa \<Rightarrow> app_state" where
  "handleAddQuestion st newQuestion =
     st\<lparr>currentQuestions := newQuestion # currentQuestions st\<rparr>"

definition handleUpdateQuestionAnswer :: "app_state \<Rightarrow> int \<Rightarrow> string \<Rightarrow> app_state" where
  "handleUpdateQuestionAnswer st questionId answerText =
     st\<lparr>currentQuestions :=
          map (\<lambda>q. if qa_id q = questionId then q\<lparr>answer := Some answerText\<rparr> else q)
            (currentQuestions st)\<rparr>"

definition handleDeleteQuestion :: "app_state \<Rightarrow> int \<Rightarrow> app_state" where
  "handleDeleteQuestion st questionId =
     st\<lparr>currentQuestions := filter (\<lambda>q. qa_id q \<noteq> questionId) (currentQuestions st)\<rparr>"

section \<open>Product detail loading (App.tsx, effect 2, lines 81-128)\<close>

text \<open>The six values \<^verbatim>\<open>Promise.all\<close> resolves to, in the order of the destructuring.\<close>

record detail_batch =
  r_product :: jsval
  r_offer :: product_offer
  r_questions :: "qa list"
  r_reviews :: jsval
  r_paymentMethods :: jsval
  r_seller :: jsval

text \<open>
  Lines 97-109 and the \<^verbatim>\<open>finally\<close>: \<^verbatim>\<open>questions.sort((a, b) => b.id - a.id)\<close> is a stable
  sort by descending id (\<^verbatim>\<open>Array.prototype.sort\<close> is stable), as \<open>sort_key\<close> on the negated
  id is. Nothing in this block reads \<^verbatim>\<open>currentProductId\<close>.
\<close>

definition detailsLoaded :: "app_state \<Rightarrow> detail_batch \<Rightarrow> app_state" where
  "detailsLoaded st r =
     st\<lparr>currentProduct := Some (r_product r),
        currentOffer := Some (r_offer r),
        currentQuestions := sort_key (\<lambda>q. - qa_id q) (r_questions r),
        currentReviews := Some (r_reviews r),
        currentPaymentMethods := Some (r_paymentMethods r),
        currentSeller := Some (r_seller r),
        selectedVariantId :=
          (case variants (r_offer r) of
             [] \<Rightarrow> selectedVariantId st
           | v # _ \<Rightarrow> Some (variant_id v)),
        quantity := 1,
        loading := False\<rparr>"

text \<open>Lines 111-123: the \<^verbatim>\<open>catch\<close> branch, given the rejection's message.\<close>

definition detailsFailed :: "app_state \<Rightarrow> string \<Rightarrow> app_state" where
  "detailsFailed st errorMessage =
     st\<lparr>error := Some (''Could not load product information. '' @ errorMessage),
        currentProduct := None,
        currentOffer := None,
        currentQuestions := [],
        currentReviews := None,
        currentPaymentMethods := None,
        currentSeller := None,
        loading := False\<rparr>"

text \<open>
  The page as a machine driven by the event loop. A page is the state cells and the ids
  of the detail batches still in flight. \<^verbatim>\<open>handleSelectProduct\<close> sets
  \<^verbatim>\<open>currentProductId\<close>; effect 2 runs when that cell changed, returns at once on a falsy id
  (\<^verbatim>\<open>null\<close> or 0) and otherwise sets \<^verbatim>\<open>loading\<close>, clears \<^verbatim>\<open>error\<close> and issues the six
  requests. A batch settles later, as an event of its own; the continuation after the
  \<^verbatim>\<open>await\<close> is \<open>detailsLoaded\<close> or \<open>detailsFailed\<close>, whatever has been selected meanwhile.
  A settlement of a batch that is not in flight cannot happen and changes nothing.
\<close>

record page =
  cells :: app_state
  inFlight :: "int list"

datatype event =
    SelectProduct int
  | BatchResolved int detail_batch
  | BatchRejected int string

definition handleSelectProduct :: "page \<Rightarrow> int \<Rightarrow> page" where
  "handleSelectProduct pg i =
     (if currentProductId (cells pg) = Some i then pg
      else if i = 0 then pg\<lparr>cells := (cells pg)\<lparr>currentProductId := Some i\<rparr>\<rparr>
      else pg\<lparr>cells := (cells pg)\<lparr>currentProductId := Some i, loading := True, error := None\<rparr>,
              inFlight := inFlight pg @ [i]\<rparr>)"

fun step :: "page \<Rightarrow> event \<Rightarrow> page" where
  "step pg (SelectProduct i) = handleSelectProduct pg i"
| "step pg (BatchResolved i r) =
     (if i \<in> set (inFlight pg)
      then pg\<lparr>cells := detailsLoaded (cells pg) r, inFlight := remove1 i (inFlight pg)\<rparr>
      else pg)"
| "step pg (BatchRejected i msg) =
     (if i \<in> set (inFlight pg)
      then pg\<lparr>cells := detailsFailed (cells pg) msg, inFlight := remove1 i (inFlight pg)\<rparr>
      else pg)"

definition run :: "page \<Rightarrow> event list \<Rightarrow> page" where
  "run pg evs = foldl step pg evs"

text \<open>Example data for the coordinator: a batch whose product carries the given id.\<close>

definition mkBatch :: "int \<Rightarrow> detail_batch" where
  "mkBatch i =
     \<lparr>r_product = JObj [(''id'', JNum (of_int i))],
      r_offer = mkOffer [mkVariant (10 * i) []],
      r_questions = [newQ i []],
      r_reviews = JObj [(''product'', JNum (of_int i))],
      r_paymentMethods = JObj [(''product'', JNum (of_int i))],
      r_seller = JObj [(''product'', JNum (of_int i))]\<rparr>"

definition listLoaded :: page where
  "listLoaded =
     \<lparr>cells = \<lparr>products = [], currentProductId = None, currentProduct = None,
               currentOffer = None, currentQuestions = [], currentReviews = None,
               currentPaymentMethods = None, currentSeller = None, selectedVariantId = None,
               quantity = 1, snackbarMessage = None, currency = ''COP'', loading = True,
               error = None\<rparr>,
      inFlight = []\<rparr>"

section \<open>Product normalisation (lib/api.ts, transformProduct)\<close>

text \<open>JavaScript truthiness, as \<^verbatim>\<open>!x\<close>, \<^verbatim>\<open>x || y\<close> and \<^verbatim>\<open>x && y\<close> read it.\<close>

fun truthy :: "jsval \<Rightarrow> bool" where
  "truthy JUndefined = False"
| "truthy JNull = False"
| "truthy (JBool b) = b"
| "truthy (JNum n) = (n \<noteq> 0)"
| "truthy (JStr s) = (s \<noteq> [])"
| "truthy (JArr xs) = True"
| "truthy (JObj ps) = True"

definition orElse :: "jsval \<Rightarrow> jsval \<Rightarrow> jsval" where
  "orElse a b = (if truthy a then a else b)"

text \<open>\<^verbatim>\<open>typeof x === 'object'\<close> holds of \<^verbatim>\<open>null\<close>, of arrays and of objects.\<close>

fun typeofObject :: "jsval \<Rightarrow> bool" where
  "typeofObject JNull = True"
| "typeofObject (JArr xs) = True"
| "typeofObject (JObj ps) = True"
| "typeofObject v = False"

fun isArray :: "jsval \<Rightarrow> bool" where
  "isArray (JArr xs) = True"
| "isArray v = False"

text \<open>
  Reading a property of a value that is neither \<^verbatim>\<open>null\<close> nor \<^verbatim>\<open>undefined\<close>. The code
  reads \<^verbatim>\<open>images\<close>, \<^verbatim>\<open>breadcrumbs\<close>, \<^verbatim>\<open>benefits\<close>, \<^verbatim>\<open>shipping\<close>, \<^verbatim>\<open>pickup\<close>,
  \<^verbatim>\<open>specs\<close>, \<^verbatim>\<open>data\<close> and \<^verbatim>\<open>message\<close> only, none of which a prototype provides: on an
  array, a string, a number or a boolean they are \<^verbatim>\<open>undefined\<close>.
\<close>

fun getProp :: "jsval \<Rightarrow> string \<Rightarrow> jsval" where
  "getProp (JObj ps) k = (case map_of ps k of Some v \<Rightarrow> v | None \<Rightarrow> JUndefined)"
| "getProp v k = JUndefined"

text \<open>Decimal digits of a number, for array indices and template literals.\<close>

fun string_of_nat :: "nat \<Rightarrow> string" where
  "string_of_nat n =
     (if n < 10 then [char_of (48 + n)]
      else string_of_nat (n div 10) @ [char_of (48 + n mod 10)])"

definition string_of_int :: "int \<Rightarrow> string" where
  "string_of_int i = (if i < 0 then CHR ''-'' # string_of_nat (nat (- i)) else string_of_nat (nat i))"

text \<open>
  The own enumerable properties an object spread \<^verbatim>\<open>{ ...product }\<close> copies: those of an
  object, or the indices of an array.
\<close>

fun ownProps :: "jsval \<Rightarrow> (string \<times> jsval) list" where
  "ownProps (JObj ps) = ps"
| "ownProps (JArr xs) = map (\<lambda>(i, x). (string_of_nat i, x)) (enumerate 0 xs)"
| "ownProps v = []"

text \<open>The object returned for input that is not an object (lines 16-26).\<close>

definition fallbackProduct :: jsval where
  "fallbackProduct =
     JObj [(''id'', JNum 0),
           (''title'', JStr ''Invalid Product''),
           (''images'', JArr []),
           (''breadcrumbs'', JObj [(''path'', JArr [])]),
           (''benefits'', JArr []),
           (''shipping'', JObj [(''free'', JBool False), (''timeline'', JStr []),
                               (''deadline'', JNull), (''moreOptionsUrl'', JStr ''#'')]),
           (''pickup'', JObj [(''free'', JBool False), (''timeline'', JNull),
                             (''location'', JNull), (''mapUrl'', JNull)]),
           (''description'', JStr []),
           (''specs'', JObj [(''highlighted'', JArr []), (''featureGroups'', JArr [])])]"

text \<open>
  \<^verbatim>\<open>JSON.parse\<close> is the platform's; it is a parameter here: \<open>None\<close> when it throws
  (the \<^verbatim>\<open>catch\<close> of lines 38-41 turns that into \<^verbatim>\<open>null\<close>).
\<close>

definition parseJsonField :: "(string \<Rightarrow> jsval option) \<Rightarrow> jsval \<Rightarrow> jsval" where
  "parseJsonField JSON_parse field =
     (case field of
        JStr s \<Rightarrow> (case JSON_parse s of Some v \<Rightarrow> v | None \<Rightarrow> JNull)
      | _ \<Rightarrow> field)"

text \<open>
  Lines 13-57. In the object literal the spread comes first and the six named
  properties are then set in order: one that the spread already copied keeps its place
  and takes the new value, another is appended (\<open>AList.update\<close>).
\<close>

definition transformProduct :: "(string \<Rightarrow> jsval option) \<Rightarrow> jsval \<Rightarrow> jsval" where
  "transformProduct JSON_parse product =
     (if \<not> truthy product \<or> \<not> typeofObject product then fallbackProduct
      else
        let parsedImages = parseJsonField JSON_parse (getProp product ''images'');
            p0 = ownProps product;
            p1 = AList.update ''images'' (if isArray parsedImages then parsedImages else JArr []) p0;
            p2 = AList.update ''breadcrumbs''
                   (orElse (parseJsonField JSON_parse (getProp product ''breadcrumbs''))
                      (JObj [(''path'', JArr [])])) p1;
            p3 = AList.update ''benefits''
                   (orElse (parseJsonField JSON_parse (getProp product ''benefits'')) (JArr [])) p2;
            p4 = AList.update ''shipping''
                   (orElse (parseJsonField JSON_parse (getProp product ''shipping'')) (JObj [])) p3;
            p5 = AList.update ''pickup''
                   (orElse (parseJsonField JSON_parse (getProp product ''pickup'')) (JObj [])) p4;
            p6 = AList.update ''specs''
                   (orElse (parseJsonField JSON_parse (getProp product ''specs''))
                      (JObj [(''highlighted'', JArr []), (''featureGroups'', JArr [])])) p5
        in JObj p6)"

text \<open>
  \<^verbatim>\<open>JSON.parse\<close> on the two texts the examples below use: the four characters
  \<^verbatim>\<open>"[]"\<close> (quotes included) are the JSON text of the string \<^verbatim>\<open>[]\<close>, and the two
  characters \<^verbatim>\<open>[]\<close> are the JSON text of the empty array. No example gives it any
  other text.
\<close>

definition quoted :: "string \<Rightarrow> string" where
  "quoted s = [CHR 0x22] @ s @ [CHR 0x22]"

definition exampleParse :: "string \<Rightarrow> jsval option" where
  "exampleParse s =
     (if s = quoted ''[]'' then Some (JStr ''[]'')
      else if s = ''[]'' then Some (JArr [])
      else None)"

section \<open>The fetcher (lib/api.ts, lines 68-109)\<close>

text \<open>
  What a \<^verbatim>\<open>throw\<close> carries: \<^verbatim>\<open>new Error(m)\<close> with the value given as its message, a
  \<^verbatim>\<open>TypeError\<close> or a \<^verbatim>\<open>SyntaxError\<close> of the platform with its message.
\<close>

datatype js_error = Error jsval | TypeError string | SyntaxError string

text \<open>The network is a parameter: \<^verbatim>\<open>fetch\<close> rejects, or resolves to a response whose
  \<^verbatim>\<open>json()\<close> rejects or resolves to the parsed body.\<close>

record response =
  ok :: bool
  status :: nat
  statusText :: string
  json :: "js_error + jsval"

datatype fetch_outcome = Rejected js_error | Resolved response

text \<open>The \<^verbatim>\<open>catch\<close> block (lines 96-108): what is thrown on for a caught error.\<close>

definition catchBlock :: "js_error \<Rightarrow> js_error" where
  "catchBlock e =
     (if e = TypeError ''Failed to fetch''
      then Error (JStr ''Network error. Please check your internet connection and try again.'')
      else e)"

text \<open>\<^verbatim>\<open>a ?? b\<close>: \<open>b\<close> when \<open>a\<close> is \<^verbatim>\<open>null\<close> or \<^verbatim>\<open>undefined\<close>, else \<open>a\<close>.\<close>

fun nullish :: "jsval \<Rightarrow> jsval \<Rightarrow> jsval" where
  "nullish JUndefined b = b"
| "nullish JNull b = b"
| "nullish a b = a"

text \<open>
  \<^verbatim>\<open>result.data ?? result\<close> (line 94): reading a property of \<^verbatim>\<open>null\<close> or \<^verbatim>\<open>undefined\<close>
  throws a \<^verbatim>\<open>TypeError\<close> (its text is the engine's), inside the \<^verbatim>\<open>try\<close>.
\<close>

fun unwrapData :: "jsval \<Rightarrow> js_error + jsval" where
  "unwrapData JNull = Inl (TypeError ''Cannot read properties of null'')"
| "unwrapData JUndefined = Inl (TypeError ''Cannot read properties of undefined'')"
| "unwrapData result = Inr (nullish (getProp result ''data'') result)"

definition fetcher ::
  "string option \<Rightarrow> (string \<Rightarrow> fetch_outcome) \<Rightarrow> string \<Rightarrow> js_error + jsval" where
  "fetcher API_BASE_URL fetch endpoint =
     (case API_BASE_URL of
        None \<Rightarrow> Inl (Error (JStr ''API_BASE_URL is not configured. Please define it in your environment or see run.md for local setup instructions.''))
      | Some base \<Rightarrow>
          if base = [] then Inl (Error (JStr ''API_BASE_URL is not configured. Please define it in your environment or see run.md for local setup instructions.''))
          else
            (case fetch (base @ endpoint) of
               Rejected e \<Rightarrow> Inl (catchBlock e)
             | Resolved resp \<Rightarrow>
                 if \<not> ok resp then
                   Inl (catchBlock (Error
                     (case json resp of
                        Inr errorInfo \<Rightarrow>
                          if truthy errorInfo \<and> truthy (getProp errorInfo ''message'')
                          then getProp errorInfo ''message''
                          else JStr (''Request failed with status '' @ string_of_nat (status resp))
                      | Inl e \<Rightarrow>
                          JStr (''Request failed with status '' @ string_of_nat (status resp)
                                @ '' ('' @ statusText resp @ '')''))))
                 else
                   (case json resp of
                      Inl e \<Rightarrow> Inl (catchBlock e)
                    | Inr result \<Rightarrow>
                        (case unwrapData result of
                           Inl e \<Rightarrow> Inl (catchBlock e)
                         | Inr v \<Rightarrow> Inr v))))"

definition getProduct ::
  "(string \<Rightarrow> jsval option) \<Rightarrow> string option \<Rightarrow> (string \<Rightarrow> fetch_outcome) \<Rightarrow> int
     \<Rightarrow> js_error + jsval" where
  "getProduct JSON_parse API_BASE_URL fetch i =
     (case fetcher API_BASE_URL fetch (''/products/'' @ string_of_int i) of
        Inl e \<Rightarrow> Inl e
      | Inr data \<Rightarrow> Inr (transformProduct JSON_parse data))"

definition getQuestions ::
  "string option \<Rightarrow> (string \<Rightarrow> fetch_outcome) \<Rightarrow> int \<Rightarrow> js_error + jsval" where
  "getQuestions API_BASE_URL fetch i =
     (case fetcher API_BASE_URL fetch (''/questions/'' @ string_of_int i) of
        Inl e \<Rightarrow> Inl e
      | Inr data \<Rightarrow> Inr (if isArray data then data else JArr []))"

text \<open>A server that answers every request with status 200 and the given body.\<close>

definition okServer :: "jsval \<Rightarrow> string \<Rightarrow> fetch_outcome" where
  "okServer body url = Resolved \<lparr>ok = True, status = 200, statusText = ''OK'', json = Inr body\<rparr>"

section \<open>Discount percentage (ProductOfferInfo.tsx, lines 68-77 and 105-107)\<close>

text \<open>
  Binary64 rounding of an exact result: to the nearest number with a 53-bit significand
  and an exponent of at least \<open>-1074\<close> (so subnormal numbers are multiples of
  \<open>2\<^sup>-\<^sup>1\<^sup>0\<^sup>7\<^sup>4\<close>), a tie going to the even significand; a result of magnitude
  \<open>2\<^sup>1\<^sup>0\<^sup>2\<^sup>4\<close> or more is an infinity. \<open>bits n\<close> is the length of \<open>n\<close> in binary,
  \<open>pow2 e\<close> is \<open>2\<^sup>e\<close>, and \<open>binade x\<close> is the integer \<open>e\<close> with \<open>2\<^sup>e \<le> \<bar>x\<bar> < 2\<^sup>e\<^sup>+\<^sup>1\<close>.
\<close>

function bits :: "int \<Rightarrow> nat" where
  "bits n = (if n \<le> 0 then 0 else Suc (bits (n div 2)))"
  by pat_completeness auto
termination
  by (relation "measure nat") auto

definition pow2 :: "int \<Rightarrow> rat" where
  "pow2 e = (if 0 \<le> e then 2 ^ nat e else 1 / 2 ^ nat (- e))"

definition binade :: "rat \<Rightarrow> int" where
  "binade x =
     (if 1 \<le> \<bar>x\<bar> then int (bits \<lfloor>\<bar>x\<bar>\<rfloor>) - 1
      else - int (bits (\<lceil>1 / \<bar>x\<bar>\<rceil> - 1)))"

definition round_half_even :: "rat \<Rightarrow> int" where
  "round_half_even x =
     (if x - of_int \<lfloor>x\<rfloor> < 1 / 2 then \<lfloor>x\<rfloor>
      else if 1 / 2 < x - of_int \<lfloor>x\<rfloor> then \<lfloor>x\<rfloor> + 1
      else if even \<lfloor>x\<rfloor> then \<lfloor>x\<rfloor> else \<lfloor>x\<rfloor> + 1)"

definition nearest :: "rat \<Rightarrow> rat" where
  "nearest x =
     of_int (round_half_even (x / pow2 (max (binade x - 52) (- 1074))))
       * pow2 (max (binade x - 52) (- 1074))"

definition fl_double :: "rat \<Rightarrow> double" where
  "fl_double x =
     (if x = 0 then Fin 0
      else if pow2 1024 \<le> \<bar>nearest x\<bar> then (if 0 < x then PInf else NInf)
      else Fin (nearest x))"

text \<open>
  The operators \<^verbatim>\<open>-\<close>, \<^verbatim>\<open>/\<close> and \<^verbatim>\<open>*\<close> on numbers: the exact result rounded, and the
  IEEE rules for infinities and NaN. (A division by zero is taken as one by \<open>+0\<close>; the
  guard of the code never lets a zero divide.)
\<close>

fun d_sub :: "double \<Rightarrow> double \<Rightarrow> double" where
  "d_sub (Fin a) (Fin b) = fl_double (a - b)"
| "d_sub NaN y = NaN"
| "d_sub x NaN = NaN"
| "d_sub PInf PInf = NaN"
| "d_sub NInf NInf = NaN"
| "d_sub PInf y = PInf"
| "d_sub NInf y = NInf"
| "d_sub (Fin a) PInf = NInf"
| "d_sub (Fin a) NInf = PInf"

fun d_div :: "double \<Rightarrow> double \<Rightarrow> double" where
  "d_div (Fin a) (Fin b) =
     (if b = 0 then (if a = 0 then NaN else if 0 < a then PInf else NInf)
      else fl_double (a / b))"
| "d_div NaN y = NaN"
| "d_div x NaN = NaN"
| "d_div (Fin a) y = Fin 0"
| "d_div PInf (Fin b) = (if 0 \<le> b then PInf else NInf)"
| "d_div NInf (Fin b) = (if 0 \<le> b then NInf else PInf)"
| "d_div x y = NaN"

fun d_mul :: "double \<Rightarrow> double \<Rightarrow> double" where
  "d_mul (Fin a) (Fin b) = fl_double (a * b)"
| "d_mul NaN y = NaN"
| "d_mul x NaN = NaN"
| "d_mul PInf (Fin b) = (if b = 0 then NaN else if 0 < b then PInf else NInf)"
| "d_mul NInf (Fin b) = (if b = 0 then NaN else if 0 < b then NInf else PInf)"
| "d_mul (Fin a) PInf = (if a = 0 then NaN else if 0 < a then PInf else NInf)"
| "d_mul (Fin a) NInf = (if a = 0 then NaN else if 0 < a then NInf else PInf)"
| "d_mul PInf PInf = PInf"
| "d_mul NInf NInf = PInf"
| "d_mul x y = NInf"

text \<open>
  \<^verbatim>\<open>Math.round\<close>: the nearest integer, a tie going toward \<open>+\<infinity>\<close>; an infinity and NaN
  are returned as they are.
\<close>

fun Math_round :: "double \<Rightarrow> double" where
  "Math_round (Fin x) = Fin (of_int \<lfloor>x + 1 / 2\<rfloor>)"
| "Math_round x = x"

text \<open>Truthiness of a number: 0 and NaN are falsy.\<close>

fun truthy_number :: "double \<Rightarrow> bool" where
  "truthy_number (Fin x) = (x \<noteq> 0)"
| "truthy_number NaN = False"
| "truthy_number x = True"

text \<open>
  Lines 76-77: \<^verbatim>\<open>originalPrice && price ? Math.round(((originalPrice - price) /
  originalPrice) * 100) : 0\<close>; an original price that is \<^verbatim>\<open>null\<close> is \<open>None\<close>.
\<close>

definition discount :: "pricing \<Rightarrow> double" where
  "discount currentPricing =
     (case originalPrice currentPricing of
        None \<Rightarrow> Fin 0
      | Some orig \<Rightarrow>
          if truthy_number orig \<and> truthy_number (price currentPricing)
          then Math_round (d_mul (d_div (d_sub orig (price currentPricing)) orig) (Fin 100))
          else Fin 0)"

text \<open>Line 68: no pricing for the currency, nothing is rendered (\<open>None\<close>).\<close>

definition currentPricing :: "variant option \<Rightarrow> string \<Rightarrow> pricing option" where
  "currentPricing selectedVariant cur =
     (case selectedVariant of None \<Rightarrow> None | Some v \<Rightarrow> map_of (pricing v) cur)"

text \<open>Lines 105-107: the badge is rendered only where \<^verbatim>\<open>discount > 0\<close>.\<close>

fun discountBadge :: "double \<Rightarrow> double option" where
  "discountBadge (Fin d) = (if 0 < d then Some (Fin d) else None)"
| "discountBadge PInf = Some PInf"
| "discountBadge d = None"

text \<open>
  The discount as the specification words it, on the exact numbers: round half away
  from zero of the exact quotient when the original price is present and positive,
  else 0.
\<close>

definition round_half_away :: "rat \<Rightarrow> int" where
  "round_half_away x = (if 0 \<le> x then \<lfloor>x + 1 / 2\<rfloor> else - \<lfloor>- x + 1 / 2\<rfloor>)"

definition spec_discountPercent :: "rat \<Rightarrow> rat option \<Rightarrow> int" where
  "spec_discountPercent p original =
     (case original of
        None \<Rightarrow> 0
      | Some orig \<Rightarrow> if 0 < orig then round_half_away ((orig - p) / orig * 100) else 0)"

text \<open>The exact percentage, before any rounding.\<close>

definition exact_percent :: "rat \<Rightarrow> rat \<Rightarrow> rat" where
  "exact_percent p orig = (orig - p) / orig * 100"

definition mkPricing :: "rat \<Rightarrow> rat option \<Rightarrow> pricing" where
  "mkPricing p orig = \<lparr>price = Fin p, originalPrice = map_option Fin orig, installments = None\<rparr>"

text \<open>Three questions with the ids 5, 3 and 1; the same in the order 3, 5, 1.\<close>

definition three_questions :: "qa list" where
  "three_questions = [newQ 5 ''five'', newQ 3 ''three'', newQ 1 ''one'']"

definition unsorted_questions :: "qa list" where
  "unsorted_questions = [newQ 3 ''three'', newQ 5 ''five'', newQ 1 ''one'']"

section \<open>Lemmas on the matching predicates\<close>

lemmas example_defs = readyState_def mkOffer_def mkVariant_def p4_variants_def p5_variants_def
  extra_key_variants_def superset_variants_def

lemma perfectMatch_iff:
  "perfectMatch newAttrs v \<longleftrightarrow>
     (\<forall>k \<in> dom (map_of newAttrs). map_of (attributes v) k = map_of newAttrs k)"
  by (auto simp: perfectMatch_def list_all_iff dom_map_of_conv_image_fst)

lemma map_of_newAttributes:
  "map_of (newAttributes cur attribute value) = (map_of (attributes cur))(attribute \<mapsto> value)"
  by (simp add: newAttributes_def update_conv')

lemma perfectMatch_cand:
  "perfectMatch (newAttributes cur attribute value) v \<longleftrightarrow>
     (\<forall>k \<in> dom ((map_of (attributes cur))(attribute \<mapsto> value)).
        map_of (attributes v) k = ((map_of (attributes cur))(attribute \<mapsto> value)) k)"
  by (simp only: perfectMatch_iff map_of_newAttributes)

lemma find_first_index:
  assumes "i < length xs" "P (xs ! i)" "\<forall>j<i. \<not> P (xs ! j)"
  shows "find P xs = Some (xs ! i)"
  using assms by (auto simp: find_Some_iff)

lemma handleVariantChange_found:
  assumes "currentProduct st = Some p" and "currentOffer st = Some offer"
    and "find (\<lambda>v. Some (variant_id v) = selectedVariantId st) (variants offer) = Some cur"
  shows "handleVariantChange st attribute value =
     st\<lparr>selectedVariantId := Some (variant_id (newVariant (variants offer) cur attribute value)),
        quantity := 1\<rparr>"
  using assms by (simp add: handleVariantChange_def)

lemma newVariant_primary:
  assumes "i < length vs"
    and "perfectMatch (newAttributes cur attribute value) (vs ! i)"
    and "\<forall>j<i. \<not> perfectMatch (newAttributes cur attribute value) (vs ! j)"
  shows "newVariant vs cur attribute value = vs ! i"
  using find_first_index [OF assms] by (simp add: newVariant_def)

lemma newVariant_fallback:
  assumes "\<forall>v \<in> set vs. \<not> perfectMatch (newAttributes cur attribute value) v"
  shows "newVariant vs cur attribute value =
     (case find (\<lambda>v. map_of (attributes v) attribute = Some value) vs of
        Some v \<Rightarrow> v | None \<Rightarrow> cur)"
proof -
  have "find (perfectMatch (newAttributes cur attribute value)) vs = None"
    using assms by (simp add: find_None_iff)
  then show ?thesis by (simp add: newVariant_def)
qed

lemma agree_no_extra_keys:
  assumes "\<forall>k \<in> dom m. m' k = m k" and "dom m' \<subseteq> dom m"
  shows "m' = m"
proof
  fix k
  show "m' k = m k"
  proof (cases "k \<in> dom m")
    case True
    with assms(1) show ?thesis by blast
  next
    case False
    with assms(2) have "k \<notin> dom m'" by blast
    with False show ?thesis by (simp add: domIff)
  qed
qed

section \<open>Variant resolution: the primary match\<close>

text \<open>
  C1, as the code has it. With a current variant \<open>cur\<close> found by id, the candidate
  \<^verbatim>\<open>newAttributes\<close> is \<open>cur\<close>'s attribute map with the changed attribute overwritten. The
  handler selects the first variant in list order that agrees with the candidate on
  every key of the candidate, the unchanged ones included, and resets the quantity to 1.
  Keys that only the variant has are not compared: the selected variant's map is
  identical to the candidate when it has no key outside the candidate's. In the example
  P4, variants (color A, ram 8), (color A, ram 16), (color B, ram 8) with variant 1
  selected and ram changed to 16, variant 2 is selected.
\<close>

theorem handleVariantChange_primary_match:
  assumes "currentProduct st = Some p" and "currentOffer st = Some offer"
    and "find (\<lambda>v. Some (variant_id v) = selectedVariantId st) (variants offer) = Some cur"
    and "i < length (variants offer)"
    and "\<forall>k \<in> dom ((map_of (attributes cur))(attribute \<mapsto> value)).
           map_of (attributes (variants offer ! i)) k
             = ((map_of (attributes cur))(attribute \<mapsto> value)) k"
    and "\<forall>j<i. \<exists>k \<in> dom ((map_of (attributes cur))(attribute \<mapsto> value)).
           map_of (attributes (variants offer ! j)) k
             \<noteq> ((map_of (attributes cur))(attribute \<mapsto> value)) k"
  shows "map_of (newAttributes cur attribute value)
           = (map_of (attributes cur))(attribute \<mapsto> value)
       \<and> handleVariantChange st attribute value
           = st\<lparr>selectedVariantId := Some (variant_id (variants offer ! i)), quantity := 1\<rparr>
       \<and> (dom (map_of (attributes (variants offer ! i)))
             \<subseteq> dom ((map_of (attributes cur))(attribute \<mapsto> value))
           \<longrightarrow> map_of (attributes (variants offer ! i))
                 = (map_of (attributes cur))(attribute \<mapsto> value))
       \<and> selectedVariantId (handleVariantChange (readyState p4_variants 1) ''ram'' ''16'')
           = Some 2"
proof (intro conjI impI)
  show "map_of (newAttributes cur attribute value)
          = (map_of (attributes cur))(attribute \<mapsto> value)"
    by (rule map_of_newAttributes)
next
  show "selectedVariantId (handleVariantChange (readyState p4_variants 1) ''ram'' ''16'')
           = Some 2"
    by (simp add: example_defs handleVariantChange_def newVariant_def perfectMatch_def
        newAttributes_def)
next
  have m: "perfectMatch (newAttributes cur attribute value) (variants offer ! i)"
    using assms(5) by (simp only: perfectMatch_cand)
  have f: "\<forall>j<i. \<not> perfectMatch (newAttributes cur attribute value) (variants offer ! j)"
    using assms(6) by (simp only: perfectMatch_cand) blast
  have "newVariant (variants offer) cur attribute value = variants offer ! i"
    by (rule newVariant_primary [OF assms(4) m f])
  then show "handleVariantChange st attribute value
           = st\<lparr>selectedVariantId := Some (variant_id (variants offer ! i)), quantity := 1\<rparr>"
    using handleVariantChange_found [OF assms(1-3)] by simp
next
  assume "dom (map_of (attributes (variants offer ! i)))
             \<subseteq> dom ((map_of (attributes cur))(attribute \<mapsto> value))"
  then show "map_of (attributes (variants offer ! i))
                 = (map_of (attributes cur))(attribute \<mapsto> value)"
    using assms(5) by (rule agree_no_extra_keys [rotated])
qed

text \<open>
  C1 at the example P4, where the current variant is the first of the list and the
  match is the second: the hypotheses hold there, and variant 2 is selected.
\<close>

theorem handleVariantChange_primary_match_witness:
  "selectedVariantId (handleVariantChange (readyState p4_variants 1) ''ram'' ''16'') = Some 2
   \<and> quantity (handleVariantChange (readyState p4_variants 1) ''ram'' ''16'') = 1"
proof -
  have "handleVariantChange (readyState p4_variants 1) ''ram'' ''16''
      = (readyState p4_variants 1)
          \<lparr>selectedVariantId := Some (variant_id (variants (mkOffer p4_variants) ! 1)),
           quantity := 1\<rparr>"
    using handleVariantChange_primary_match [of "readyState p4_variants 1" "JObj []"
        "mkOffer p4_variants" "mkVariant 1 [(''color'', ''A''), (''ram'', ''8'')]" 1
        "''ram''" "''16''"]
    by (simp add: example_defs)
  then show ?thesis by (simp add: example_defs)
qed

text \<open>
  C1 as stated fails where a variant carries a key the candidate does not have. Variant
  1 (color A, ram 8) is selected and ram changes to 16: the handler selects variant 2,
  whose map has the extra key size and so is not the candidate map, although variant 3,
  later in the list, has exactly the candidate map.
\<close>

theorem handleVariantChange_primary_match_counterexample:
  "selectedVariantId (handleVariantChange (readyState extra_key_variants 1) ''ram'' ''16'') = Some 2
   \<and> map_of (attributes (extra_key_variants ! 1)) ''size'' = Some ''L''
   \<and> map_of (newAttributes (extra_key_variants ! 0) ''ram'' ''16'') ''size'' = None
   \<and> map_of (attributes (extra_key_variants ! 2))
        = map_of (newAttributes (extra_key_variants ! 0) ''ram'' ''16'')"
  by (auto simp add: example_defs newVariant_def perfectMatch_def newAttributes_def
      handleVariantChange_def fun_eq_iff)

section \<open>Variant resolution: the fallbacks\<close>

text \<open>
  Where a variant has no key outside the candidate's, failing the primary match and
  having a map other than the candidate map are the same.
\<close>

lemma no_primary_match_iff_other_map:
  assumes "dom (map_of (attributes v)) \<subseteq> dom (map_of (newAttributes cur attribute value))"
  shows "\<not> perfectMatch (newAttributes cur attribute value) v
           \<longleftrightarrow> map_of (attributes v) \<noteq> map_of (newAttributes cur attribute value)"
proof -
  have "perfectMatch (newAttributes cur attribute value) v
          \<longleftrightarrow> map_of (attributes v) = map_of (newAttributes cur attribute value)"
    unfolding perfectMatch_iff
    using agree_no_extra_keys [OF _ assms] by auto
  then show ?thesis by simp
qed

text \<open>
  C2, as the code has it. The primary match is the test of C1: agreement with the
  candidate on every key of the candidate, which a variant with more keys can pass.
  With a current variant \<open>cur\<close> found by id, when no variant of the list passes that
  test (each differs from the candidate on some key of the candidate), the handler
  selects the first variant in list order whose changed attribute has the new value,
  whatever its other attributes; when no variant has that value, the selection stays
  the current variant. In every case the new selection is the id of a variant.
\<close>

theorem handleVariantChange_fallback:
  assumes "currentProduct st = Some p" and "currentOffer st = Some offer"
    and "find (\<lambda>v. Some (variant_id v) = selectedVariantId st) (variants offer) = Some cur"
    and "\<forall>v \<in> set (variants offer).
           \<exists>k \<in> dom ((map_of (attributes cur))(attribute \<mapsto> value)).
             map_of (attributes v) k \<noteq> ((map_of (attributes cur))(attribute \<mapsto> value)) k"
  shows "(\<forall>j. j < length (variants offer)
              \<and> map_of (attributes (variants offer ! j)) attribute = Some value
              \<and> (\<forall>l<j. map_of (attributes (variants offer ! l)) attribute \<noteq> Some value)
            \<longrightarrow> handleVariantChange st attribute value
                  = st\<lparr>selectedVariantId := Some (variant_id (variants offer ! j)),
                       quantity := 1\<rparr>)
       \<and> ((\<forall>v \<in> set (variants offer). map_of (attributes v) attribute \<noteq> Some value)
            \<longrightarrow> handleVariantChange st attribute value
                  = st\<lparr>selectedVariantId := Some (variant_id cur), quantity := 1\<rparr>
                \<and> selectedVariantId st = Some (variant_id cur))
       \<and> (\<exists>v \<in> insert cur (set (variants offer)).
             selectedVariantId (handleVariantChange st attribute value) = Some (variant_id v))"
proof -
  let ?hit = "\<lambda>v. map_of (attributes v) attribute = Some value"
  have none: "\<forall>v \<in> set (variants offer). \<not> perfectMatch (newAttributes cur attribute value) v"
    using assms(4) by (simp only: perfectMatch_cand) blast
  have nv: "newVariant (variants offer) cur attribute value =
      (case find ?hit (variants offer) of Some v \<Rightarrow> v | None \<Rightarrow> cur)"
    by (rule newVariant_fallback [OF none])
  note h = handleVariantChange_found [OF assms(1-3), of attribute "value"]
  have a: "handleVariantChange st attribute value
             = st\<lparr>selectedVariantId := Some (variant_id (variants offer ! j)), quantity := 1\<rparr>"
    if "j < length (variants offer)" "?hit (variants offer ! j)"
       "\<forall>l<j. \<not> ?hit (variants offer ! l)" for j
  proof -
    have "find ?hit (variants offer) = Some (variants offer ! j)"
      using that by (intro find_first_index) auto
    with nv h show ?thesis by simp
  qed
  have b: "handleVariantChange st attribute value
             = st\<lparr>selectedVariantId := Some (variant_id cur), quantity := 1\<rparr>
           \<and> selectedVariantId st = Some (variant_id cur)"
    if "\<forall>v \<in> set (variants offer). \<not> ?hit v"
  proof -
    have "find ?hit (variants offer) = None"
      using that by (simp add: find_None_iff)
    moreover have "selectedVariantId st = Some (variant_id cur)"
      using assms(3) by (auto simp: find_Some_iff)
    ultimately show ?thesis using nv h by simp
  qed
  have c: "\<exists>v \<in> insert cur (set (variants offer)).
             selectedVariantId (handleVariantChange st attribute value) = Some (variant_id v)"
  proof (cases "find ?hit (variants offer)")
    case None
    with nv h show ?thesis by simp
  next
    case (Some v)
    then have "v \<in> set (variants offer)"
      by (auto simp: find_Some_iff)
    with Some nv h show ?thesis by auto
  qed
  from a b c show ?thesis by blast
qed

text \<open>
  The example P5 of the specification: variants (color A, ram 8) and (color B, ram 16),
  variant 1 selected. Changing color to B has no primary match and falls back to
  variant 2; changing color to C matches nothing and keeps variant 1.
\<close>

theorem handleVariantChange_fallback_witness:
  "selectedVariantId (handleVariantChange (readyState p5_variants 1) ''color'' ''B'') = Some 2
   \<and> selectedVariantId (handleVariantChange (readyState p5_variants 1) ''color'' ''C'') = Some 1"
proof -
  let ?st = "readyState p5_variants 1"
  let ?cur = "mkVariant 1 [(''color'', ''A''), (''ram'', ''8'')]"
  have cp: "currentProduct ?st = Some (JObj [])"
    and co: "currentOffer ?st = Some (mkOffer p5_variants)"
    and cur: "find (\<lambda>v. Some (variant_id v) = selectedVariantId ?st)
                (variants (mkOffer p5_variants)) = Some ?cur"
    by (simp_all add: example_defs)
  have nB: "\<forall>v \<in> set (variants (mkOffer p5_variants)).
           \<exists>k \<in> dom ((map_of (attributes ?cur))(''color'' \<mapsto> ''B'')).
             map_of (attributes v) k \<noteq> ((map_of (attributes ?cur))(''color'' \<mapsto> ''B'')) k"
    by (simp add: example_defs)
  have nC: "\<forall>v \<in> set (variants (mkOffer p5_variants)).
           \<exists>k \<in> dom ((map_of (attributes ?cur))(''color'' \<mapsto> ''C'')).
             map_of (attributes v) k \<noteq> ((map_of (attributes ?cur))(''color'' \<mapsto> ''C'')) k"
    by (simp add: example_defs)
  have "handleVariantChange ?st ''color'' ''B''
          = ?st\<lparr>selectedVariantId := Some (variant_id (variants (mkOffer p5_variants) ! 1)),
                quantity := 1\<rparr>"
    using handleVariantChange_fallback [OF cp co cur nB, THEN conjunct1, rule_format, of 1]
    by (simp add: example_defs)
  moreover have "handleVariantChange ?st ''color'' ''C''
          = ?st\<lparr>selectedVariantId := Some (variant_id ?cur), quantity := 1\<rparr>"
  proof -
    have hC: "\<forall>v \<in> set (variants (mkOffer p5_variants)).
                map_of (attributes v) ''color'' \<noteq> Some ''C''"
      by (simp add: example_defs)
    show ?thesis
      using handleVariantChange_fallback
        [OF cp co cur nC, THEN conjunct2, THEN conjunct1, THEN mp, OF hC]
      by simp
  qed
  ultimately show ?thesis by (simp add: example_defs)
qed

text \<open>
  C2 as stated fails where "no variant has the full candidate map" and "no variant
  passes the primary match" differ. Variant 1 (color A, ram 8) is selected and ram
  changes to 16. No variant's map is the candidate map (color A, ram 16): the first has
  ram 8, the second color B, the third the extra key size. The first variant with ram
  16 is variant 2, yet the handler selects variant 3, which passes the primary match.
\<close>

theorem handleVariantChange_fallback_counterexample:
  "selectedVariantId (handleVariantChange (readyState superset_variants 1) ''ram'' ''16'') = Some 3
   \<and> map_of (newAttributes (superset_variants ! 0) ''ram'' ''16'') ''color'' = Some ''A''
   \<and> map_of (newAttributes (superset_variants ! 0) ''ram'' ''16'') ''ram'' = Some ''16''
   \<and> map_of (newAttributes (superset_variants ! 0) ''ram'' ''16'') ''size'' = None
   \<and> map_of (attributes (superset_variants ! 0)) ''ram'' = Some ''8''
   \<and> map_of (attributes (superset_variants ! 1)) ''color'' = Some ''B''
   \<and> map_of (attributes (superset_variants ! 2)) ''size'' = Some ''L''
   \<and> find (\<lambda>v. map_of (attributes v) ''ram'' = Some ''16'') superset_variants
        = Some (superset_variants ! 1)
   \<and> variant_id (superset_variants ! 1) = 2"
  by (simp add: example_defs newVariant_def perfectMatch_def newAttributes_def
      handleVariantChange_def)

section \<open>Variant resolution: no current variant\<close>

text \<open>
  C8, as the code has it. When the selected variant id is the id of no variant of the
  offer (or there is no offer), the handler returns at its guard: it completes normally
  and leaves every state cell, the selection and the quantity included, as it was. No
  error is raised.
\<close>

theorem handleVariantChange_no_current_variant:
  assumes "\<forall>offer. currentOffer st = Some offer \<longrightarrow>
             (\<forall>v \<in> set (variants offer). Some (variant_id v) \<noteq> selectedVariantId st)"
  shows "handleVariantChange st attribute value = st"
proof (cases "currentOffer st")
  case None
  then show ?thesis by (simp add: handleVariantChange_def split: option.splits)
next
  case (Some offer)
  with assms have "find (\<lambda>v. Some (variant_id v) = selectedVariantId st) (variants offer) = None"
    by (simp add: find_None_iff)
  with Some show ?thesis by (simp add: handleVariantChange_def split: option.splits)
qed

text \<open>C8 at the variants of P4 with the selection 9, which is no variant's id.\<close>

theorem handleVariantChange_no_current_variant_witness:
  "handleVariantChange (readyState p4_variants 9) ''ram'' ''16'' = readyState p4_variants 9"
  using handleVariantChange_no_current_variant [of "readyState p4_variants 9" "''ram''" "''16''"]
  by (simp add: example_defs)

text \<open>
  C8 as stated fails: with the variants of P5 and the selection 3, which matches no
  variant, the handler does not fail; it returns the state it was given.
\<close>

theorem handleVariantChange_no_current_variant_counterexample:
  "find (\<lambda>v. Some (variant_id v) = selectedVariantId (readyState p5_variants 3)) p5_variants = None
   \<and> handleVariantChange (readyState p5_variants 3) ''color'' ''B'' = readyState p5_variants 3"
  by (simp add: example_defs handleVariantChange_def)

section \<open>The question list\<close>






lemma sorted_desc_update:
  "sorted_wrt (\<lambda>a b. qa_id a \<ge> qa_id b) qs \<Longrightarrow>
   sorted_wrt (\<lambda>a b. qa_id a \<ge> qa_id b)
     (map (\<lambda>q. if qa_id q = T then q\<lparr>answer := Some a\<rparr> else q) qs)"
  by (induction qs) auto

text \<open>
  C10. A successful detail load stores the fetched questions sorted by id, highest
  first (the same questions, reordered), and a locally added question becomes the
  first element of the list (index 0). A list that is in that order stays in it when
  an answer is updated, when a question is deleted, and when the added question's id
  is at least every id in the list, as a temporary id taken from the clock is.
\<close>

theorem questions_newest_first:
  "sorted_wrt (\<lambda>a b. qa_id a \<ge> qa_id b) (currentQuestions (detailsLoaded st r))
   \<and> mset (currentQuestions (detailsLoaded st r)) = mset (r_questions r)
   \<and> currentQuestions (handleAddQuestion st q) = q # currentQuestions st
   \<and> currentQuestions (handleAddQuestion st q) ! 0 = q
   \<and> (sorted_wrt (\<lambda>a b. qa_id a \<ge> qa_id b) (currentQuestions st) \<longrightarrow>
        ((\<forall>x \<in> set (currentQuestions st). qa_id x \<le> qa_id q) \<longrightarrow>
           sorted_wrt (\<lambda>a b. qa_id a \<ge> qa_id b) (currentQuestions (handleAddQuestion st q)))
        \<and> sorted_wrt (\<lambda>a b. qa_id a \<ge> qa_id b)
             (currentQuestions (handleUpdateQuestionAnswer st T a))
        \<and> sorted_wrt (\<lambda>a b. qa_id a \<ge> qa_id b)
             (currentQuestions (handleDeleteQuestion st T)))"
proof -
  have "sorted (map (\<lambda>q. - qa_id q) (sort_key (\<lambda>q. - qa_id q) (r_questions r)))"
    by (rule sorted_sort_key)
  then have "sorted_wrt (\<lambda>a b. qa_id a \<ge> qa_id b) (sort_key (\<lambda>q. - qa_id q) (r_questions r))"
    by (simp add: sorted_map)
  then have load: "sorted_wrt (\<lambda>a b. qa_id a \<ge> qa_id b) (currentQuestions (detailsLoaded st r))
     \<and> mset (currentQuestions (detailsLoaded st r)) = mset (r_questions r)"
    by (simp add: detailsLoaded_def)
  have add: "currentQuestions (handleAddQuestion st q) = q # currentQuestions st
     \<and> currentQuestions (handleAddQuestion st q) ! 0 = q"
    by (simp add: handleAddQuestion_def)
  have keep: "((\<forall>x \<in> set (currentQuestions st). qa_id x \<le> qa_id q) \<longrightarrow>
           sorted_wrt (\<lambda>a b. qa_id a \<ge> qa_id b) (currentQuestions (handleAddQuestion st q)))
        \<and> sorted_wrt (\<lambda>a b. qa_id a \<ge> qa_id b)
             (currentQuestions (handleUpdateQuestionAnswer st T a))
        \<and> sorted_wrt (\<lambda>a b. qa_id a \<ge> qa_id b)
             (currentQuestions (handleDeleteQuestion st T))"
    if s: "sorted_wrt (\<lambda>a b. qa_id a \<ge> qa_id b) (currentQuestions st)"
  proof (intro conjI impI)
    assume "\<forall>x \<in> set (currentQuestions st). qa_id x \<le> qa_id q"
    with s show "sorted_wrt (\<lambda>a b. qa_id a \<ge> qa_id b) (currentQuestions (handleAddQuestion st q))"
      by (simp add: handleAddQuestion_def)
  next
    show "sorted_wrt (\<lambda>a b. qa_id a \<ge> qa_id b)
             (currentQuestions (handleUpdateQuestionAnswer st T a))"
      using sorted_desc_update [OF s] by (simp add: handleUpdateQuestionAnswer_def)
  next
    show "sorted_wrt (\<lambda>a b. qa_id a \<ge> qa_id b)
             (currentQuestions (handleDeleteQuestion st T))"
      using s by (simp add: handleDeleteQuestion_def sorted_wrt_filter)
  qed
  from load add keep show ?thesis by blast
qed

text \<open>
  C10 on questions fetched in the order 3, 5, 1, which are stored as 5, 3, 1, and on
  adding a question with id 9 to the questions 5, 3, 1.
\<close>

theorem questions_newest_first_witness:
  "map qa_id (currentQuestions
      (detailsLoaded (readyState [] 1) ((mkBatch 7)\<lparr>r_questions := unsorted_questions\<rparr>)))
     = [5, 3, 1]
   \<and> map qa_id (currentQuestions (handleAddQuestion
        ((readyState [] 1)\<lparr>currentQuestions := three_questions\<rparr>) (newQ 9 ''new'')))
     = [9, 5, 3, 1]
   \<and> sorted_wrt (\<lambda>a b. qa_id a \<ge> qa_id b) (currentQuestions (handleAddQuestion
        ((readyState [] 1)\<lparr>currentQuestions := three_questions\<rparr>) (newQ 9 ''new'')))"
proof -
  let ?st = "(readyState [] 1)\<lparr>currentQuestions := three_questions\<rparr>"
  have s: "sorted_wrt (\<lambda>a b. qa_id a \<ge> qa_id b) (currentQuestions ?st)"
    and n: "\<forall>x \<in> set (currentQuestions ?st). qa_id x \<le> qa_id (newQ 9 ''new'')"
    by (simp_all add: three_questions_def newQ_def)
  have "sorted_wrt (\<lambda>a b. qa_id a \<ge> qa_id b) (currentQuestions (handleAddQuestion ?st (newQ 9 ''new'')))"
    using questions_newest_first [where st = ?st and q = "newQ 9 ''new''"] s n by blast
  moreover have "map qa_id (currentQuestions
      (detailsLoaded (readyState [] 1) ((mkBatch 7)\<lparr>r_questions := unsorted_questions\<rparr>)))
     = [5, 3, 1]"
    by (simp add: detailsLoaded_def mkBatch_def unsorted_questions_def newQ_def)
  moreover have "map qa_id (currentQuestions (handleAddQuestion ?st (newQ 9 ''new''))) = [9, 5, 3, 1]"
    by (simp add: handleAddQuestion_def three_questions_def newQ_def)
  ultimately show ?thesis by simp
qed

section \<open>The coordinator and a stale batch\<close>

lemma step_resolved_in_flight:
  assumes "i \<in> set (inFlight pg)"
  shows "step pg (BatchResolved i r)
           = \<lparr>cells = detailsLoaded (cells pg) r, inFlight = remove1 i (inFlight pg)\<rparr>"
  using assms by simp

lemma detailsLoaded_cells:
  "currentProduct (detailsLoaded st r) = Some (r_product r)
   \<and> currentOffer (detailsLoaded st r) = Some (r_offer r)
   \<and> currentQuestions (detailsLoaded st r) = sort_key (\<lambda>q. - qa_id q) (r_questions r)
   \<and> currentReviews (detailsLoaded st r) = Some (r_reviews r)
   \<and> currentPaymentMethods (detailsLoaded st r) = Some (r_paymentMethods r)
   \<and> currentSeller (detailsLoaded st r) = Some (r_seller r)
   \<and> currentProductId (detailsLoaded st r) = currentProductId st
   \<and> loading (detailsLoaded st r) = False"
  by (simp add: detailsLoaded_def)

lemma select_other_product:
  assumes "currentProductId (cells pg) = Some a" "b \<noteq> a" "b \<noteq> 0"
  shows "step pg (SelectProduct b)
           = \<lparr>cells = (cells pg)\<lparr>currentProductId := Some b, loading := True, error := None\<rparr>,
              inFlight = inFlight pg @ [b]\<rparr>"
  using assms by (simp add: handleSelectProduct_def)

text \<open>
  C6, as the code has it. Product \<open>a\<close> is selected and its batch is in flight (with any
  other batches); then \<open>b\<close> is selected, different from \<open>a\<close> and not 0. No batch is ever
  discarded: each is applied when it settles, and \<^verbatim>\<open>currentProductId\<close> is not read. If
  \<open>a\<close>'s batch settles last, the detail cells (product, offer, questions, reviews, payment
  methods, seller) hold \<open>a\<close>'s data while the selected id is \<open>b\<close>; if it settles first,
  \<open>b\<close>'s batch overwrites it and the cells hold \<open>b\<close>'s data.
\<close>

theorem stale_batch_is_applied:
  assumes "currentProductId (cells pg) = Some a" "a \<in> set (inFlight pg)" "b \<noteq> a" "b \<noteq> 0"
  shows "(let late = run pg [SelectProduct b, BatchResolved b rb, BatchResolved a ra]
          in currentProductId (cells late) = Some b
           \<and> currentProduct (cells late) = Some (r_product ra)
           \<and> currentOffer (cells late) = Some (r_offer ra)
           \<and> currentQuestions (cells late) = sort_key (\<lambda>q. - qa_id q) (r_questions ra)
           \<and> currentReviews (cells late) = Some (r_reviews ra)
           \<and> currentPaymentMethods (cells late) = Some (r_paymentMethods ra)
           \<and> currentSeller (cells late) = Some (r_seller ra)
           \<and> loading (cells late) = False)
       \<and> (let early = run pg [SelectProduct b, BatchResolved a ra, BatchResolved b rb]
          in currentProductId (cells early) = Some b
           \<and> currentProduct (cells early) = Some (r_product rb)
           \<and> currentOffer (cells early) = Some (r_offer rb)
           \<and> currentQuestions (cells early) = sort_key (\<lambda>q. - qa_id q) (r_questions rb)
           \<and> currentReviews (cells early) = Some (r_reviews rb)
           \<and> currentPaymentMethods (cells early) = Some (r_paymentMethods rb)
           \<and> currentSeller (cells early) = Some (r_seller rb)
           \<and> loading (cells early) = False)"
proof -
  define p1 where "p1 = step pg (SelectProduct b)"
  have p1: "p1 = \<lparr>cells = (cells pg)\<lparr>currentProductId := Some b, loading := True, error := None\<rparr>,
              inFlight = inFlight pg @ [b]\<rparr>"
    unfolding p1_def by (rule select_other_product [OF assms(1,3,4)])
  have fa: "a \<in> set (inFlight p1)" and fb: "b \<in> set (inFlight p1)"
    using assms(2) by (simp_all add: p1)
  have id1: "currentProductId (cells p1) = Some b" by (simp add: p1)
  define pb where "pb = step p1 (BatchResolved b rb)"
  define pa where "pa = step p1 (BatchResolved a ra)"
  have pb: "pb = \<lparr>cells = detailsLoaded (cells p1) rb, inFlight = remove1 b (inFlight p1)\<rparr>"
    unfolding pb_def by (rule step_resolved_in_flight [OF fb])
  have pa: "pa = \<lparr>cells = detailsLoaded (cells p1) ra, inFlight = remove1 a (inFlight p1)\<rparr>"
    unfolding pa_def by (rule step_resolved_in_flight [OF fa])
  have "a \<in> set (inFlight pb)" using fa assms(3) by (simp add: pb)
  then have late: "step pb (BatchResolved a ra)
      = \<lparr>cells = detailsLoaded (cells pb) ra, inFlight = remove1 a (inFlight pb)\<rparr>"
    by (rule step_resolved_in_flight)
  have "b \<in> set (inFlight pa)" using fb assms(3) by (simp add: pa)
  then have early: "step pa (BatchResolved b rb)
      = \<lparr>cells = detailsLoaded (cells pa) rb, inFlight = remove1 b (inFlight pa)\<rparr>"
    by (rule step_resolved_in_flight)
  have r: "run pg [SelectProduct b, BatchResolved b rb, BatchResolved a ra]
             = step pb (BatchResolved a ra)"
    "run pg [SelectProduct b, BatchResolved a ra, BatchResolved b rb]
             = step pa (BatchResolved b rb)"
    by (simp_all add: run_def pa_def pb_def p1_def)
  have idb: "currentProductId (cells pb) = Some b" and ida: "currentProductId (cells pa) = Some b"
    using id1 by (simp_all add: pa pb detailsLoaded_cells)
  show ?thesis
    unfolding r late early Let_def using ida idb by (simp add: detailsLoaded_cells)
qed

text \<open>C6 at the products 7 and 8, from the page that has just loaded its list.\<close>

theorem stale_batch_is_applied_witness:
  "currentProductId (cells (run (run listLoaded [SelectProduct 7])
       [SelectProduct 8, BatchResolved 8 (mkBatch 8), BatchResolved 7 (mkBatch 7)]))
     = Some 8
   \<and> currentProduct (cells (run (run listLoaded [SelectProduct 7])
       [SelectProduct 8, BatchResolved 8 (mkBatch 8), BatchResolved 7 (mkBatch 7)]))
     = Some (JObj [(''id'', JNum 7)])
   \<and> currentProduct (cells (run (run listLoaded [SelectProduct 7])
       [SelectProduct 8, BatchResolved 7 (mkBatch 7), BatchResolved 8 (mkBatch 8)]))
     = Some (JObj [(''id'', JNum 8)])"
proof -
  have h: "currentProductId (cells (run listLoaded [SelectProduct 7])) = Some 7"
    "7 \<in> set (inFlight (run listLoaded [SelectProduct 7]))"
    by (simp_all add: run_def listLoaded_def handleSelectProduct_def)
  show ?thesis
    using stale_batch_is_applied [OF h, of 8 "mkBatch 8" "mkBatch 7"]
    by (simp add: Let_def mkBatch_def)
qed

text \<open>
  C6 as stated fails: product 1 is selected, then product 2; the batch of 2 resolves
  first and the batch of 1 after it. The selected id is 2, and the product, the seller
  and the selected variant are those of product 1.
\<close>

theorem stale_batch_counterexample:
  "currentProductId (cells (run listLoaded
       [SelectProduct 1, SelectProduct 2, BatchResolved 2 (mkBatch 2), BatchResolved 1 (mkBatch 1)]))
     = Some 2
   \<and> currentProduct (cells (run listLoaded
       [SelectProduct 1, SelectProduct 2, BatchResolved 2 (mkBatch 2), BatchResolved 1 (mkBatch 1)]))
     = Some (JObj [(''id'', JNum 1)])
   \<and> currentSeller (cells (run listLoaded
       [SelectProduct 1, SelectProduct 2, BatchResolved 2 (mkBatch 2), BatchResolved 1 (mkBatch 1)]))
     = Some (JObj [(''product'', JNum 1)])
   \<and> selectedVariantId (cells (run listLoaded
       [SelectProduct 1, SelectProduct 2, BatchResolved 2 (mkBatch 2), BatchResolved 1 (mkBatch 1)]))
     = Some 10
   \<and> r_product (mkBatch 2) = JObj [(''id'', JNum 2)]"
  by (simp add: run_def listLoaded_def mkBatch_def handleSelectProduct_def detailsLoaded_def
      mkOffer_def mkVariant_def)



section \<open>The fetcher's envelope\<close>

lemma fetcher_ok:
  assumes "API_BASE_URL = Some base" "base \<noteq> []" "fetch (base @ endpoint) = Resolved resp"
    "ok resp" "json resp = Inr body"
  shows "fetcher API_BASE_URL fetch endpoint =
     (case unwrapData body of Inl e \<Rightarrow> Inl (catchBlock e) | Inr v \<Rightarrow> Inr v)"
  using assms by (simp add: fetcher_def)

text \<open>
  C7, as the code has it (\<^verbatim>\<open>result.data ?? result\<close>). For a successful response whose
  parsed body is not \<^verbatim>\<open>null\<close>: when the body is an object whose \<^verbatim>\<open>data\<close> property is
  present and is not \<^verbatim>\<open>null\<close>, the fetcher returns the value of that property; for every
  other body (an object without \<^verbatim>\<open>data\<close> or whose \<^verbatim>\<open>data\<close> is \<^verbatim>\<open>null\<close>, an array, a
  number, a string, a boolean) it returns the parsed body itself.
\<close>

theorem fetcher_unwraps_data:
  assumes "API_BASE_URL = Some base" "base \<noteq> []" "fetch (base @ endpoint) = Resolved resp"
    "ok resp" "json resp = Inr body" "body \<noteq> JNull" "body \<noteq> JUndefined"
  shows "fetcher API_BASE_URL fetch endpoint =
     Inr (case body of
            JObj ps \<Rightarrow>
              (case map_of ps ''data'' of
                 None \<Rightarrow> body
               | Some v \<Rightarrow> if v = JNull \<or> v = JUndefined then body else v)
          | _ \<Rightarrow> body)"
proof -
  have "unwrapData body = Inr (nullish (getProp body ''data'') body)"
    using assms(6,7) by (cases body) simp_all
  moreover have "nullish (getProp body ''data'') body =
     (case body of
            JObj ps \<Rightarrow>
              (case map_of ps ''data'' of
                 None \<Rightarrow> body
               | Some v \<Rightarrow> if v = JNull \<or> v = JUndefined then body else v)
          | _ \<Rightarrow> body)"
  proof (cases body)
    case (JObj ps)
    show ?thesis
    proof (cases "map_of ps ''data''")
      case None
      with JObj show ?thesis by simp
    next
      case (Some v)
      with JObj show ?thesis by (cases v) simp_all
    qed
  qed simp_all
  moreover have "fetcher API_BASE_URL fetch endpoint =
     (case unwrapData body of Inl e \<Rightarrow> Inl (catchBlock e) | Inr v \<Rightarrow> Inr v)"
    using assms(1-5) by (rule fetcher_ok)
  ultimately show ?thesis by simp
qed

text \<open>C7 on a wrapped product, on a bare product and on a bare array.\<close>

theorem fetcher_unwraps_data_witness:
  "fetcher (Some ''http://api'') (okServer (JObj [(''data'', JObj [(''id'', JNum 1)])])) ''/products/1''
     = Inr (JObj [(''id'', JNum 1)])
   \<and> fetcher (Some ''http://api'') (okServer (JObj [(''id'', JNum 1)])) ''/products/1''
     = Inr (JObj [(''id'', JNum 1)])
   \<and> fetcher (Some ''http://api'') (okServer (JArr [JNum 1])) ''/questions/1''
     = Inr (JArr [JNum 1])"
  using fetcher_unwraps_data [of "Some ''http://api''" "''http://api''"
      "okServer (JObj [(''data'', JObj [(''id'', JNum 1)])])" "''/products/1''" _
      "JObj [(''data'', JObj [(''id'', JNum 1)])]"]
    fetcher_unwraps_data [of "Some ''http://api''" "''http://api''"
      "okServer (JObj [(''id'', JNum 1)])" "''/products/1''" _ "JObj [(''id'', JNum 1)]"]
    fetcher_unwraps_data [of "Some ''http://api''" "''http://api''"
      "okServer (JArr [JNum 1])" "''/questions/1''" _ "JArr [JNum 1]"]
  by (simp add: okServer_def)

text \<open>
  C7 as stated fails on an envelope that exposes a \<^verbatim>\<open>data\<close> field holding \<^verbatim>\<open>null\<close>: the
  fetcher returns the envelope, not the value of the field.
\<close>

theorem fetcher_unwraps_data_counterexample:
  "fetcher (Some ''http://api'') (okServer (JObj [(''data'', JNull)])) ''/products/1''
     = Inr (JObj [(''data'', JNull)])
   \<and> getProp (JObj [(''data'', JNull)]) ''data'' = JNull"
  by (simp add: fetcher_def okServer_def)

text \<open>
  A body that is \<^verbatim>\<open>null\<close> is not returned at all: reading \<^verbatim>\<open>result.data\<close> throws inside
  the \<^verbatim>\<open>try\<close>, and the \<^verbatim>\<open>catch\<close> throws the \<^verbatim>\<open>TypeError\<close> on.
\<close>

lemma fetcher_null_body:
  "fetcher (Some ''http://api'') (okServer JNull) ''/products/1''
     = Inl (TypeError ''Cannot read properties of null'')"
  by (simp add: fetcher_def okServer_def catchBlock_def)



section \<open>Normalisation: the fallback product\<close>

lemma not_object_cases:
  assumes "\<forall>ps. raw \<noteq> JObj ps" and "\<forall>xs. raw \<noteq> JArr xs"
  shows "\<not> truthy raw \<or> \<not> typeofObject raw"
  using assms by (cases raw) simp_all

text \<open>
  C3, as the code has it. For every input that is neither an object nor an array
  (\<^verbatim>\<open>null\<close>, \<^verbatim>\<open>undefined\<close>, a boolean, a number such as 42, a string such as \<^verbatim>\<open>x\<close>), the
  normaliser returns the fixed fallback product, whose id is 0, whose title is
  \<^verbatim>\<open>Invalid Product\<close> and whose images, breadcrumbs path, benefits and specs lists are
  empty. It has no \<^verbatim>\<open>throw\<close> and catches what \<^verbatim>\<open>JSON.parse\<close> throws: it is a total function
  of its input, for every behaviour of \<^verbatim>\<open>JSON.parse\<close>. An array is an object for the
  guard: the empty array gives the six default fields and neither id nor title.
\<close>

theorem transformProduct_fallback:
  assumes "\<forall>ps. raw \<noteq> JObj ps" and "\<forall>xs. raw \<noteq> JArr xs"
  shows "transformProduct JSON_parse raw = fallbackProduct
       \<and> getProp fallbackProduct ''id'' = JNum 0
       \<and> getProp fallbackProduct ''title'' = JStr ''Invalid Product''
       \<and> getProp fallbackProduct ''images'' = JArr []
       \<and> getProp (getProp fallbackProduct ''breadcrumbs'') ''path'' = JArr []
       \<and> getProp fallbackProduct ''benefits'' = JArr []
       \<and> getProp (getProp fallbackProduct ''specs'') ''highlighted'' = JArr []
       \<and> getProp (getProp fallbackProduct ''specs'') ''featureGroups'' = JArr []
       \<and> transformProduct JSON_parse (JArr [])
           = JObj [(''images'', JArr []),
                   (''breadcrumbs'', JObj [(''path'', JArr [])]),
                   (''benefits'', JArr []),
                   (''shipping'', JObj []),
                   (''pickup'', JObj []),
                   (''specs'', JObj [(''highlighted'', JArr []), (''featureGroups'', JArr [])])]"
proof -
  have "transformProduct JSON_parse (JArr [])
           = JObj [(''images'', JArr []),
                   (''breadcrumbs'', JObj [(''path'', JArr [])]),
                   (''benefits'', JArr []),
                   (''shipping'', JObj []),
                   (''pickup'', JObj []),
                   (''specs'', JObj [(''highlighted'', JArr []), (''featureGroups'', JArr [])])]"
    by (simp add: transformProduct_def parseJsonField_def orElse_def Let_def)
  moreover have "transformProduct JSON_parse raw = fallbackProduct"
    using not_object_cases [OF assms] by (simp add: transformProduct_def)
  ultimately show ?thesis by (simp add: fallbackProduct_def)
qed

text \<open>C3 at \<^verbatim>\<open>null\<close>, 42, the string \<^verbatim>\<open>x\<close> and \<^verbatim>\<open>undefined\<close>.\<close>

theorem transformProduct_fallback_witness:
  "transformProduct exampleParse JNull = fallbackProduct
   \<and> transformProduct exampleParse (JNum 42) = fallbackProduct
   \<and> transformProduct exampleParse (JStr ''x'') = fallbackProduct
   \<and> transformProduct exampleParse JUndefined = fallbackProduct"
  using transformProduct_fallback [of JNull exampleParse]
    transformProduct_fallback [of "JNum 42" exampleParse]
    transformProduct_fallback [of "JStr ''x''" exampleParse]
    transformProduct_fallback [of JUndefined exampleParse]
  by simp

text \<open>
  C3 as stated fails at the empty array: \<^verbatim>\<open>typeof [] === 'object'\<close>, so the guard lets it
  through and the result is the spread of the array with the six default fields, with
  no id and no title; it is not the fallback product.
\<close>

theorem transformProduct_fallback_counterexample:
  "transformProduct exampleParse (JArr [])
     = JObj [(''images'', JArr []),
             (''breadcrumbs'', JObj [(''path'', JArr [])]),
             (''benefits'', JArr []),
             (''shipping'', JObj []),
             (''pickup'', JObj []),
             (''specs'', JObj [(''highlighted'', JArr []), (''featureGroups'', JArr [])])]
   \<and> getProp (transformProduct exampleParse (JArr [])) ''id'' = JUndefined
   \<and> getProp (transformProduct exampleParse (JArr [])) ''title'' = JUndefined
   \<and> getProp fallbackProduct ''id'' = JNum 0"
  by (simp add: transformProduct_def fallbackProduct_def parseJsonField_def orElse_def Let_def)


section \<open>Normalisation: applying it twice\<close>

lemma parseJsonField_structured:
  assumes "\<forall>s. v \<noteq> JStr s"
  shows "parseJsonField JSON_parse v = v"
  using assms by (cases v) (simp_all add: parseJsonField_def)

lemma getProp_JObj: "getProp (JObj ps) k = v \<Longrightarrow> v \<noteq> JUndefined \<Longrightarrow> map_of ps k = Some v"
  by (auto split: option.splits)

lemma orElse_default [simp]: "truthy d \<Longrightarrow> truthy (orElse a d)"
  by (simp add: orElse_def)

lemma orElse_truthy: "truthy a \<Longrightarrow> orElse a d = a"
  by (simp add: orElse_def)

lemma transformProduct_object:
  "transformProduct JSON_parse (JObj ps) =
     JObj (AList.update ''specs''
            (orElse (parseJsonField JSON_parse (getProp (JObj ps) ''specs''))
               (JObj [(''highlighted'', JArr []), (''featureGroups'', JArr [])]))
          (AList.update ''pickup''
            (orElse (parseJsonField JSON_parse (getProp (JObj ps) ''pickup'')) (JObj []))
          (AList.update ''shipping''
            (orElse (parseJsonField JSON_parse (getProp (JObj ps) ''shipping'')) (JObj []))
          (AList.update ''benefits''
            (orElse (parseJsonField JSON_parse (getProp (JObj ps) ''benefits'')) (JArr []))
          (AList.update ''breadcrumbs''
            (orElse (parseJsonField JSON_parse (getProp (JObj ps) ''breadcrumbs''))
               (JObj [(''path'', JArr [])]))
          (AList.update ''images''
            (if isArray (parseJsonField JSON_parse (getProp (JObj ps) ''images''))
             then parseJsonField JSON_parse (getProp (JObj ps) ''images'') else JArr [])
            ps))))))"
  unfolding transformProduct_def Let_def by simp

lemma field_fixed:
  assumes "map_of ps k = Some v" "truthy v" "\<forall>s. v \<noteq> JStr s"
  shows "AList.update k (orElse (parseJsonField JSON_parse (getProp (JObj ps) k)) d) ps = ps"
proof -
  have "getProp (JObj ps) k = v" using assms(1) by simp
  moreover have "parseJsonField JSON_parse v = v"
    by (rule parseJsonField_structured [OF assms(3)])
  ultimately show ?thesis
    using assms(1,2) by (simp only: orElse_truthy update_triv)
qed

lemma images_fixed:
  assumes "map_of ps ''images'' = Some im" "isArray im"
  shows "AList.update ''images''
            (if isArray (parseJsonField JSON_parse (getProp (JObj ps) ''images''))
             then parseJsonField JSON_parse (getProp (JObj ps) ''images'') else JArr [])
            ps = ps"
proof -
  have "getProp (JObj ps) ''images'' = im" using assms(1) by simp
  moreover have "\<forall>s. im \<noteq> JStr s" using assms(2) by (cases im) simp_all
  then have "parseJsonField JSON_parse im = im" by (rule parseJsonField_structured)
  ultimately show ?thesis
    using assms by (simp only: if_True update_triv)
qed

text \<open>An object whose six fields are already in normal form is a fixed point.\<close>

lemma transformProduct_fixed:
  assumes "map_of ps ''images'' = Some im" "isArray im"
    and "map_of ps ''breadcrumbs'' = Some br" "truthy br" "\<forall>s. br \<noteq> JStr s"
    and "map_of ps ''benefits'' = Some be" "truthy be" "\<forall>s. be \<noteq> JStr s"
    and "map_of ps ''shipping'' = Some sh" "truthy sh" "\<forall>s. sh \<noteq> JStr s"
    and "map_of ps ''pickup'' = Some pk" "truthy pk" "\<forall>s. pk \<noteq> JStr s"
    and "map_of ps ''specs'' = Some sp" "truthy sp" "\<forall>s. sp \<noteq> JStr s"
  shows "transformProduct JSON_parse (JObj ps) = JObj ps"
  by (simp only: transformProduct_object images_fixed [OF assms(1,2)]
      field_fixed [OF assms(3,4,5)] field_fixed [OF assms(6,7,8)]
      field_fixed [OF assms(9,10,11)] field_fixed [OF assms(12,13,14)]
      field_fixed [OF assms(15,16,17)])


lemma transformProduct_not_object:
  "\<not> truthy raw \<or> \<not> typeofObject raw \<Longrightarrow> transformProduct JSON_parse raw = fallbackProduct"
  by (simp add: transformProduct_def)

lemma transformProduct_spread:
  assumes "truthy raw" "typeofObject raw"
  shows "transformProduct JSON_parse raw =
     JObj (AList.update ''specs''
            (orElse (parseJsonField JSON_parse (getProp raw ''specs''))
               (JObj [(''highlighted'', JArr []), (''featureGroups'', JArr [])]))
          (AList.update ''pickup''
            (orElse (parseJsonField JSON_parse (getProp raw ''pickup'')) (JObj []))
          (AList.update ''shipping''
            (orElse (parseJsonField JSON_parse (getProp raw ''shipping'')) (JObj []))
          (AList.update ''benefits''
            (orElse (parseJsonField JSON_parse (getProp raw ''benefits'')) (JArr []))
          (AList.update ''breadcrumbs''
            (orElse (parseJsonField JSON_parse (getProp raw ''breadcrumbs''))
               (JObj [(''path'', JArr [])]))
          (AList.update ''images''
            (if isArray (parseJsonField JSON_parse (getProp raw ''images''))
             then parseJsonField JSON_parse (getProp raw ''images'') else JArr [])
            (ownProps raw)))))))"
  using assms unfolding transformProduct_def Let_def by simp

lemma fallbackProduct_fixed: "transformProduct JSON_parse fallbackProduct = fallbackProduct"
  by (simp add: transformProduct_def fallbackProduct_def parseJsonField_def orElse_def Let_def)

lemma six_updates:
  assumes "qs = AList.update ''specs'' sp (AList.update ''pickup'' pk
     (AList.update ''shipping'' sh (AList.update ''benefits'' be
     (AList.update ''breadcrumbs'' br (AList.update ''images'' im ps)))))"
  shows "map_of qs ''images'' = Some im" "map_of qs ''breadcrumbs'' = Some br"
    "map_of qs ''benefits'' = Some be" "map_of qs ''shipping'' = Some sh"
    "map_of qs ''pickup'' = Some pk" "map_of qs ''specs'' = Some sp"
  unfolding assms by (simp_all add: update_conv')

text \<open>
  C4, as the code has it. When none of the fields \<^verbatim>\<open>breadcrumbs\<close>, \<^verbatim>\<open>benefits\<close>,
  \<^verbatim>\<open>shipping\<close>, \<^verbatim>\<open>pickup\<close>, \<^verbatim>\<open>specs\<close> of the normalised product is a string, normalising
  it again changes nothing; and \<^verbatim>\<open>parseJsonField\<close> returns every value that is not a
  string as it is. This holds for every behaviour of \<^verbatim>\<open>JSON.parse\<close>.
\<close>

theorem transformProduct_idempotent:
  assumes "\<forall>k \<in> {''breadcrumbs'', ''benefits'', ''shipping'', ''pickup'', ''specs''}.
             \<forall>s. getProp (transformProduct JSON_parse raw) k \<noteq> JStr s"
  shows "transformProduct JSON_parse (transformProduct JSON_parse raw)
           = transformProduct JSON_parse raw
       \<and> (\<forall>v. (\<forall>s. v \<noteq> JStr s) \<longrightarrow> parseJsonField JSON_parse v = v)"
proof (intro conjI allI impI)
  fix v :: jsval
  assume "\<forall>s. v \<noteq> JStr s"
  then show "parseJsonField JSON_parse v = v" by (rule parseJsonField_structured)
next
  show "transformProduct JSON_parse (transformProduct JSON_parse raw)
           = transformProduct JSON_parse raw"
  proof (cases "truthy raw \<and> typeofObject raw")
    case False
    then have "transformProduct JSON_parse raw = fallbackProduct"
      by (intro transformProduct_not_object) blast
    then show ?thesis by (simp only: fallbackProduct_fixed)
  next
    case True
    define im where "im = (if isArray (parseJsonField JSON_parse (getProp raw ''images''))
             then parseJsonField JSON_parse (getProp raw ''images'') else JArr [])"
    define br where "br = orElse (parseJsonField JSON_parse (getProp raw ''breadcrumbs''))
               (JObj [(''path'', JArr [])])"
    define be where "be = orElse (parseJsonField JSON_parse (getProp raw ''benefits'')) (JArr [])"
    define sh where "sh = orElse (parseJsonField JSON_parse (getProp raw ''shipping'')) (JObj [])"
    define pk where "pk = orElse (parseJsonField JSON_parse (getProp raw ''pickup'')) (JObj [])"
    define sp where "sp = orElse (parseJsonField JSON_parse (getProp raw ''specs''))
               (JObj [(''highlighted'', JArr []), (''featureGroups'', JArr [])])"
    define qs where "qs = AList.update ''specs'' sp (AList.update ''pickup'' pk
       (AList.update ''shipping'' sh (AList.update ''benefits'' be
       (AList.update ''breadcrumbs'' br (AList.update ''images'' im (ownProps raw))))))"
    have r: "transformProduct JSON_parse raw = JObj qs"
      using True unfolding qs_def im_def br_def be_def sh_def pk_def sp_def
      by (intro transformProduct_spread) simp_all
    have m: "map_of qs ''images'' = Some im" "map_of qs ''breadcrumbs'' = Some br"
      "map_of qs ''benefits'' = Some be" "map_of qs ''shipping'' = Some sh"
      "map_of qs ''pickup'' = Some pk" "map_of qs ''specs'' = Some sp"
      by (rule six_updates [OF qs_def])+
    have t: "isArray im" "truthy br" "truthy be" "truthy sh" "truthy pk" "truthy sp"
      unfolding im_def br_def be_def sh_def pk_def sp_def by simp_all
    have n: "\<forall>s. br \<noteq> JStr s" "\<forall>s. be \<noteq> JStr s" "\<forall>s. sh \<noteq> JStr s"
      "\<forall>s. pk \<noteq> JStr s" "\<forall>s. sp \<noteq> JStr s"
      using assms unfolding r by (simp_all add: m)
    have "transformProduct JSON_parse (JObj qs) = JObj qs"
      by (rule transformProduct_fixed [OF m(1) t(1) m(2) t(2) n(1) m(3) t(3) n(2)
            m(4) t(4) n(3) m(5) t(5) n(4) m(6) t(6) n(5)])
    then show ?thesis by (simp only: r)
  qed
qed

text \<open>
  C4 on a product whose \<^verbatim>\<open>images\<close> is the JSON text of the empty array and whose
  \<^verbatim>\<open>benefits\<close> is not JSON at all.
\<close>

theorem transformProduct_idempotent_witness:
  "transformProduct exampleParse (transformProduct exampleParse
      (JObj [(''id'', JNum 1), (''images'', JStr ''[]''), (''benefits'', JStr ''oops'')]))
     = transformProduct exampleParse
      (JObj [(''id'', JNum 1), (''images'', JStr ''[]''), (''benefits'', JStr ''oops'')])
   \<and> transformProduct exampleParse
      (JObj [(''id'', JNum 1), (''images'', JStr ''[]''), (''benefits'', JStr ''oops'')])
     = JObj [(''id'', JNum 1), (''images'', JArr []), (''benefits'', JArr []),
             (''breadcrumbs'', JObj [(''path'', JArr [])]), (''shipping'', JObj []),
             (''pickup'', JObj []),
             (''specs'', JObj [(''highlighted'', JArr []), (''featureGroups'', JArr [])])]"
proof -
  let ?raw = "JObj [(''id'', JNum 1), (''images'', JStr ''[]''), (''benefits'', JStr ''oops'')]"
  have e: "transformProduct exampleParse ?raw
     = JObj [(''id'', JNum 1), (''images'', JArr []), (''benefits'', JArr []),
             (''breadcrumbs'', JObj [(''path'', JArr [])]), (''shipping'', JObj []),
             (''pickup'', JObj []),
             (''specs'', JObj [(''highlighted'', JArr []), (''featureGroups'', JArr [])])]"
    by (simp add: transformProduct_def parseJsonField_def orElse_def exampleParse_def quoted_def
        Let_def)
  have "\<forall>k \<in> {''breadcrumbs'', ''benefits'', ''shipping'', ''pickup'', ''specs''}.
             \<forall>s. getProp (transformProduct exampleParse ?raw) k \<noteq> JStr s"
    unfolding e by simp
  from transformProduct_idempotent [OF this] e show ?thesis by simp
qed

text \<open>
  C4 as stated fails on a doubly encoded field. \<^verbatim>\<open>benefits\<close> is the JSON text of the
  string \<^verbatim>\<open>[]\<close>: the first pass stores that string, the second pass parses it into the
  empty array.
\<close>

theorem transformProduct_idempotent_counterexample:
  "getProp (transformProduct exampleParse (JObj [(''benefits'', JStr (quoted ''[]''))])) ''benefits''
     = JStr ''[]''
   \<and> getProp (transformProduct exampleParse
        (transformProduct exampleParse (JObj [(''benefits'', JStr (quoted ''[]''))]))) ''benefits''
     = JArr []
   \<and> transformProduct exampleParse
        (transformProduct exampleParse (JObj [(''benefits'', JStr (quoted ''[]''))]))
     \<noteq> transformProduct exampleParse (JObj [(''benefits'', JStr (quoted ''[]''))])"
  by (simp add: transformProduct_def parseJsonField_def orElse_def exampleParse_def quoted_def
        Let_def)

section \<open>The discount percentage\<close>

text \<open>
  The length in binary, the powers of two and the binade:
  \<open>pow2 (binade x) \<le> \<bar>x\<bar> < pow2 (binade x + 1)\<close>.
\<close>

declare bits.simps [simp del]

lemma bits_bounds: "0 < n \<Longrightarrow> 2 ^ (bits n - 1) \<le> n \<and> n < 2 ^ bits n"
proof (induction n rule: bits.induct)
  case (1 n)
  from "1.prems" have n0: "\<not> n \<le> 0" by simp
  have b: "bits n = Suc (bits (n div 2))" using n0 by (subst bits.simps) simp
  show ?case
  proof (cases "n div 2 \<le> 0")
    case True
    with "1.prems" have "n = 1" by presburger
    then show ?thesis by (simp add: bits.simps)
  next
    case False
    then have pos: "0 < n div 2" by simp
    from "1.IH" [OF n0 pos]
    have ih: "2 ^ (bits (n div 2) - 1) \<le> n div 2" "n div 2 < 2 ^ bits (n div 2)"
      by simp_all
    have bp: "0 < bits (n div 2)" using pos by (subst bits.simps) simp
    then have e: "2 ^ bits (n div 2) = 2 * (2::int) ^ (bits (n div 2) - 1)"
      by (cases "bits (n div 2)") simp_all
    have "2 ^ (bits n - 1) = (2::int) ^ bits (n div 2)" using b by simp
    also have "\<dots> \<le> 2 * (n div 2)" using ih(1) e by simp
    also have "\<dots> \<le> n" by presburger
    finally have "2 ^ (bits n - 1) \<le> n" .
    moreover have "n < 2 * (n div 2) + 2" by presburger
    then have "n < 2 ^ bits n"
      using ih(2) b by simp
    ultimately show ?thesis ..
  qed
qed

lemma bits_pos: "0 < n \<Longrightarrow> 0 < bits n"
  by (subst bits.simps) simp

lemma pow2_pos: "0 < pow2 e"
  by (simp add: pow2_def)

lemma pow2_nat: "pow2 (int n) = 2 ^ n"
  by (simp add: pow2_def)

lemma pow2_powi: "pow2 e = power_int 2 e"
  by (simp add: pow2_def power_int_def field_simps)

lemma pow2_add: "pow2 (a + b) = pow2 a * pow2 b"
  by (simp add: pow2_powi power_int_add)

lemma pow2_Suc: "pow2 (e + 1) = 2 * pow2 e"
  using pow2_add [of e 1] by (simp add: pow2_def)

lemma pow2_mono: "a \<le> b \<Longrightarrow> pow2 a \<le> pow2 b"
proof -
  assume "a \<le> b"
  then obtain n where b: "b = a + int n" by (metis zle_iff_zadd)
  have "(1::rat) \<le> 2 ^ n" by simp
  then have "pow2 a * 1 \<le> pow2 a * 2 ^ n"
    using pow2_pos [of a] by (intro mult_left_mono) simp_all
  then show ?thesis unfolding b pow2_add pow2_nat by simp
qed

lemma pow2_less_imp: "pow2 a < pow2 b \<Longrightarrow> a < b"
  using pow2_mono [of b a] by (cases "a < b") simp_all

lemma pow2_minus_52: "pow2 (e - 52) * 2 ^ 52 = pow2 e"
proof -
  have "pow2 (e - 52) * pow2 (int 52) = pow2 e"
    using pow2_add [of "e - 52" "int 52"] by simp
  then show ?thesis by (simp only: pow2_nat)
qed

lemma binade_bounds:
  assumes "x \<noteq> 0"
  shows "pow2 (binade x) \<le> \<bar>x\<bar> \<and> \<bar>x\<bar> < pow2 (binade x + 1)"
proof (cases "1 \<le> \<bar>x\<bar>")
  case True
  define n where "n = \<lfloor>\<bar>x\<bar>\<rfloor>"
  have n: "0 < n" "of_int n \<le> \<bar>x\<bar>" "\<bar>x\<bar> < of_int n + 1"
    unfolding n_def using True by linarith+
  from bits_bounds [OF n(1)] have b: "2 ^ (bits n - 1) \<le> n" "n + 1 \<le> 2 ^ bits n" by simp_all
  have bp: "0 < bits n" by (rule bits_pos [OF n(1)])
  have bin: "binade x = int (bits n) - 1" using True by (simp add: binade_def n_def)
  have "int (bits n) - 1 = int (bits n - 1)" using bp by simp
  then have "pow2 (binade x) = 2 ^ (bits n - 1)" unfolding bin by (simp only: pow2_nat)
  also have "\<dots> = of_int (2 ^ (bits n - 1))" by simp
  also have "\<dots> \<le> of_int n" using b(1) by (simp only: of_int_le_iff)
  finally have lo: "pow2 (binade x) \<le> \<bar>x\<bar>" using n(2) by simp
  have "\<bar>x\<bar> < of_int (n + 1)" using n(3) by simp
  also have "\<dots> \<le> of_int (2 ^ bits n)" using b(2) by (simp only: of_int_le_iff)
  also have "\<dots> = pow2 (binade x + 1)" unfolding bin by (simp add: pow2_nat)
  finally show ?thesis using lo by simp
next
  case False
  define y where "y = 1 / \<bar>x\<bar>"
  define k where "k = \<lceil>y\<rceil> - 1"
  have xp: "0 < \<bar>x\<bar>" "\<bar>x\<bar> < 1" using assms False by simp_all
  then have y1: "1 < y" unfolding y_def by (simp add: field_simps)
  then have k: "0 < k" "of_int k < y" "y \<le> of_int k + 1"
    unfolding k_def by linarith+
  from bits_bounds [OF k(1)] have b: "2 ^ (bits k - 1) \<le> k" "k + 1 \<le> 2 ^ bits k" by simp_all
  have bp: "0 < bits k" by (rule bits_pos [OF k(1)])
  have bin: "binade x = - int (bits k)" using False by (simp add: binade_def k_def y_def)
  have "y \<le> of_int (k + 1)" using k(3) by simp
  also have "\<dots> \<le> of_int (2 ^ bits k)" using b(2) by (simp only: of_int_le_iff)
  finally have yhi: "y \<le> 2 ^ bits k" by simp
  have "(2::rat) ^ (bits k - 1) = of_int (2 ^ (bits k - 1))" by simp
  also have "\<dots> \<le> of_int k" using b(1) by (simp only: of_int_le_iff)
  finally have ylo: "2 ^ (bits k - 1) < y" using k(2) by linarith
  have p1: "pow2 (binade x) = 1 / 2 ^ bits k"
    unfolding bin using bp by (simp add: pow2_def)
  obtain j where j: "bits k = Suc j" using bp by (cases "bits k") simp_all
  have p2: "pow2 (binade x + 1) = 1 / 2 ^ (bits k - 1)"
    unfolding pow2_Suc p1 j by simp
  have xy: "\<bar>x\<bar> = 1 / y" unfolding y_def by simp
  have "1 / 2 ^ bits k \<le> 1 / y"
    using yhi y1 by (simp add: frac_le)
  moreover have "1 / y < 1 / 2 ^ (bits k - 1)"
    using ylo by (simp add: frac_less2)
  ultimately show ?thesis unfolding p1 p2 xy by simp
qed

text \<open>
  Rounding to binary64: in the normal range the result is finite and its relative error is
  at most \<open>2\<^sup>-\<^sup>5\<^sup>3\<close>; from \<open>2\<^sup>1\<^sup>0\<^sup>2\<^sup>4\<close> on the result is \<open>+\<infinity>\<close>.
\<close>

lemma round_half_even_error: "\<bar>of_int (round_half_even m) - m\<bar> \<le> 1 / 2"
proof -
  have f: "of_int \<lfloor>m\<rfloor> \<le> m" "m < of_int \<lfloor>m\<rfloor> + 1" by linarith+
  have lo: "\<bar>of_int \<lfloor>m\<rfloor> - m\<bar> \<le> 1 / 2" if "m - of_int \<lfloor>m\<rfloor> \<le> 1 / 2"
    using that f by linarith
  have hi: "\<bar>of_int (\<lfloor>m\<rfloor> + 1) - m\<bar> \<le> 1 / 2" if "1 / 2 \<le> m - of_int \<lfloor>m\<rfloor>"
    unfolding of_int_add of_int_1 using that f by linarith
  consider "m - of_int \<lfloor>m\<rfloor> < 1 / 2" | "1 / 2 < m - of_int \<lfloor>m\<rfloor>"
    | "m - of_int \<lfloor>m\<rfloor> = 1 / 2" by linarith
  then show ?thesis
  proof cases
    case 1
    then have r: "round_half_even m = \<lfloor>m\<rfloor>" by (simp add: round_half_even_def)
    from 1 have "m - of_int \<lfloor>m\<rfloor> \<le> 1 / 2" by linarith
    then show ?thesis unfolding r by (rule lo)
  next
    case 2
    then have r: "round_half_even m = \<lfloor>m\<rfloor> + 1" by (simp add: round_half_even_def)
    from 2 have "1 / 2 \<le> m - of_int \<lfloor>m\<rfloor>" by linarith
    then show ?thesis unfolding r by (rule hi)
  next
    case 3
    have "round_half_even m = \<lfloor>m\<rfloor> \<or> round_half_even m = \<lfloor>m\<rfloor> + 1"
      unfolding round_half_even_def 3 by simp
    then show ?thesis
    proof
      assume r: "round_half_even m = \<lfloor>m\<rfloor>"
      from 3 have "m - of_int \<lfloor>m\<rfloor> \<le> 1 / 2" by linarith
      then show ?thesis unfolding r by (rule lo)
    next
      assume r: "round_half_even m = \<lfloor>m\<rfloor> + 1"
      from 3 have "1 / 2 \<le> m - of_int \<lfloor>m\<rfloor>" by linarith
      then show ?thesis unfolding r by (rule hi)
    qed
  qed
qed


lemma round_half_even_ge_floor: "\<lfloor>m\<rfloor> \<le> round_half_even m"
  by (simp add: round_half_even_def)

lemma binade_ge:
  assumes "pow2 e \<le> \<bar>x\<bar>"
  shows "e \<le> binade x"
proof -
  have "x \<noteq> 0" using assms pow2_pos [of e] by auto
  from binade_bounds [OF this] have "pow2 e < pow2 (binade x + 1)" using assms by linarith
  then have "e < binade x + 1" by (rule pow2_less_imp)
  then show ?thesis by simp
qed

lemma nearest_error:
  assumes "pow2 (- 1022) \<le> \<bar>x\<bar>"
  shows "\<bar>nearest x - x\<bar> \<le> \<bar>x\<bar> / 2 ^ 53"
proof -
  have x0: "x \<noteq> 0" using assms pow2_pos [of "- 1022"] by auto
  have "- 1022 \<le> binade x" by (rule binade_ge [OF assms])
  then have m: "max (binade x - 52) (- 1074) = binade x - 52" by simp
  define pe where "pe = pow2 (binade x - 52)"
  define m where "m = x / pe"
  have pe: "0 < pe" unfolding pe_def by (rule pow2_pos)
  have x: "x = m * pe" unfolding m_def using pe by simp
  have "nearest x = of_int (round_half_even m) * pe"
    unfolding nearest_def \<open>max (binade x - 52) (- 1074) = binade x - 52\<close> pe_def m_def ..
  then have "\<bar>nearest x - x\<bar> = \<bar>of_int (round_half_even m) - m\<bar> * pe"
    using pe by (simp add: x left_diff_distrib [symmetric] abs_mult)
  also have "\<dots> \<le> 1 / 2 * pe"
    using round_half_even_error [of m] pe by (intro mult_right_mono) simp_all
  finally have e: "\<bar>nearest x - x\<bar> \<le> pe / 2" by simp
  have "pe * 2 ^ 52 = pow2 (binade x)" unfolding pe_def by (rule pow2_minus_52)
  also have "\<dots> \<le> \<bar>x\<bar>" using binade_bounds [OF x0] by simp
  finally have "pe / 2 \<le> \<bar>x\<bar> / 2 ^ 53" by simp
  with e show ?thesis by linarith
qed

lemma fl_double_normal:
  assumes "pow2 (- 1022) \<le> \<bar>x\<bar>" "\<bar>x\<bar> \<le> pow2 1023"
  shows "\<exists>r. fl_double x = Fin r \<and> \<bar>r - x\<bar> \<le> \<bar>x\<bar> / 2 ^ 53"
proof -
  have x0: "x \<noteq> 0" using assms(1) pow2_pos [of "- 1022"] by auto
  note e = nearest_error [OF assms(1)]
  have "\<bar>x\<bar> / 2 ^ 53 \<le> \<bar>x\<bar> / 2" by (intro divide_left_mono) simp_all
  with e have "\<bar>nearest x\<bar> \<le> \<bar>x\<bar> + \<bar>x\<bar> / 2" by linarith
  also have "\<dots> < 2 * pow2 1023" using assms(2) pow2_pos [of 1023] by linarith
  also have "\<dots> = pow2 1024" using pow2_Suc [of 1023] by simp
  finally have "\<not> pow2 1024 \<le> \<bar>nearest x\<bar>" by simp
  then have "fl_double x = Fin (nearest x)" using x0 by (simp add: fl_double_def)
  with e show ?thesis by blast
qed

lemma fl_double_overflow:
  assumes "pow2 1024 \<le> x"
  shows "fl_double x = PInf"
proof -
  have xp: "0 < x" using assms pow2_pos [of 1024] by linarith
  then have ax: "\<bar>x\<bar> = x" by simp
  have b: "1024 \<le> binade x" using assms by (intro binade_ge) (simp add: ax)
  then have mx: "max (binade x - 52) (- 1074) = binade x - 52" by simp
  define pe where "pe = pow2 (binade x - 52)"
  define m where "m = x / pe"
  have pe: "0 < pe" unfolding pe_def by (rule pow2_pos)
  have p52: "pe * 2 ^ 52 = pow2 (binade x)" unfolding pe_def by (rule pow2_minus_52)
  have "pow2 (binade x) \<le> x" using binade_bounds [of x] xp by simp
  then have "2 ^ 52 \<le> m" unfolding m_def using pe p52 by (simp add: field_simps)
  then have "(2::int) ^ 52 \<le> \<lfloor>m\<rfloor>" by (simp add: le_floor_iff)
  then have "(2::int) ^ 52 \<le> round_half_even m"
    using round_half_even_ge_floor [of m] by linarith
  then have "(2::rat) ^ 52 \<le> of_int (round_half_even m)"
    by (metis of_int_le_iff of_int_numeral of_int_power)
  then have "2 ^ 52 * pe \<le> of_int (round_half_even m) * pe"
    using pe by (intro mult_right_mono) simp_all
  moreover have "nearest x = of_int (round_half_even m) * pe"
    unfolding nearest_def mx pe_def m_def ..
  ultimately have "pow2 (binade x) \<le> nearest x" using p52 by (simp add: mult.commute)
  moreover have "pow2 1024 \<le> pow2 (binade x)" by (rule pow2_mono [OF b])
  ultimately have "pow2 1024 \<le> \<bar>nearest x\<bar>" by linarith
  then show ?thesis using xp by (simp add: fl_double_def)
qed


lemma fl_double_zero: "fl_double 0 = Fin 0"
  by (simp add: fl_double_def)

lemma fl_double_range:
  assumes "pow2 (- 1010) \<le> \<bar>x\<bar>" "\<bar>x\<bar> \<le> pow2 1010"
  shows "\<exists>r. fl_double x = Fin r \<and> \<bar>r - x\<bar> \<le> \<bar>x\<bar> / 2 ^ 53"
proof -
  have "pow2 (- 1022) \<le> pow2 (- 1010)" by (rule pow2_mono) simp
  moreover have "pow2 1010 \<le> pow2 1023" by (rule pow2_mono) simp
  ultimately show ?thesis using assms by (intro fl_double_normal) linarith+
qed

text \<open>
  The three operations of line 77, each rounded: the product differs from the exact
  percentage by at most \<open>2\<^sup>-\<^sup>5\<^sup>1\<close> of it.
\<close>

lemma pow2_quotient_bounds:
  assumes "pow2 (- 500) \<le> \<bar>d\<bar>" "\<bar>d\<bar> \<le> pow2 500"
    and "pow2 (- 500) \<le> \<bar>orig\<bar>" "\<bar>orig\<bar> \<le> pow2 500"
  shows "pow2 (- 1000) \<le> \<bar>d / orig\<bar> \<and> \<bar>d / orig\<bar> \<le> pow2 1000"
proof -
  have o: "0 < \<bar>orig\<bar>" using assms(3) pow2_pos [of "- 500"] by linarith
  have 1: "pow2 (- 500) = pow2 (- 1000) * pow2 500" using pow2_add [of "- 1000" 500] by simp
  have 2: "pow2 500 = pow2 1000 * pow2 (- 500)" using pow2_add [of 1000 "- 500"] by simp
  have "pow2 (- 1000) * \<bar>orig\<bar> \<le> pow2 (- 1000) * pow2 500"
    using assms(4) pow2_pos [of "- 1000"] by (intro mult_left_mono) simp_all
  also have "\<dots> \<le> \<bar>d\<bar>" using assms(1) 1 by simp
  finally have lo: "pow2 (- 1000) \<le> \<bar>d\<bar> / \<bar>orig\<bar>" using o by (simp add: pos_le_divide_eq)
  have "\<bar>d\<bar> \<le> pow2 1000 * pow2 (- 500)" using assms(2) 2 by simp
  also have "\<dots> \<le> pow2 1000 * \<bar>orig\<bar>"
    using assms(3) pow2_pos [of 1000] by (intro mult_left_mono) simp_all
  finally have hi: "\<bar>d\<bar> / \<bar>orig\<bar> \<le> pow2 1000" using o by (simp add: pos_divide_le_eq)
  from lo hi show ?thesis by (simp add: abs_divide)
qed

lemma three_roundings:
  fixes x1 q b c :: rat
  assumes "\<bar>q - x1\<bar> \<le> \<bar>x1\<bar> / 2 ^ 53" "\<bar>b - q\<bar> \<le> \<bar>q\<bar> / 2 ^ 53"
    and "\<bar>c - b * 100\<bar> \<le> \<bar>b * 100\<bar> / 2 ^ 53"
  shows "\<bar>c - x1 * 100\<bar> \<le> \<bar>x1 * 100\<bar> / 2 ^ 51"
proof -
  define X where "X = \<bar>x1\<bar>"
  define E1 where "E1 = \<bar>q - x1\<bar>"
  define Q where "Q = \<bar>q\<bar>"
  define E2 where "E2 = \<bar>b - q\<bar>"
  define B where "B = \<bar>b\<bar>"
  define E3 where "E3 = \<bar>c - b * 100\<bar>"
  define R where "R = \<bar>c - x1 * 100\<bar>"
  have u: "(2::rat) ^ 53 = 9007199254740992" "(2::rat) ^ 51 = 2251799813685248" by simp_all
  have 1: "E1 \<le> X / 9007199254740992" using assms(1) unfolding E1_def X_def u .
  have 2: "E2 \<le> Q / 9007199254740992" using assms(2) unfolding E2_def Q_def u .
  have "\<bar>b * 100\<bar> = B * 100" unfolding B_def by (simp add: abs_mult)
  then have 3: "E3 \<le> B * 100 / 9007199254740992" using assms(3) unfolding E3_def u by simp
  have 4: "Q \<le> X + E1" unfolding Q_def X_def E1_def by linarith
  have 5: "B \<le> Q + E2" unfolding B_def Q_def E2_def by linarith
  have "c - x1 * 100 = (c - b * 100) + (b - q) * 100 + (q - x1) * 100" by (simp add: algebra_simps)
  then have "R \<le> \<bar>c - b * 100\<bar> + \<bar>(b - q) * 100\<bar> + \<bar>(q - x1) * 100\<bar>"
    unfolding R_def by linarith
  moreover have "\<bar>(b - q) * 100\<bar> = E2 * 100" "\<bar>(q - x1) * 100\<bar> = E1 * 100"
    unfolding E1_def E2_def by (simp_all only: abs_mult abs_numeral)
  ultimately have 6: "R \<le> E3 + E2 * 100 + E1 * 100"
    unfolding E3_def by (simp only:)
  have X0: "0 \<le> X" unfolding X_def by simp
  have "R \<le> X * 100 / 2251799813685248" using 1 2 3 4 5 6 X0 by linarith
  moreover have "\<bar>x1 * 100\<bar> = X * 100" unfolding X_def by (simp add: abs_mult)
  ultimately show ?thesis unfolding R_def u by simp
qed

lemma rounding_keeps_range:
  fixes r x :: rat
  assumes "\<bar>r - x\<bar> \<le> \<bar>x\<bar> / 2 ^ 53"
  shows "\<bar>x\<bar> / 2 \<le> \<bar>r\<bar> \<and> \<bar>r\<bar> \<le> 2 * \<bar>x\<bar>"
proof -
  have u: "(2::rat) ^ 53 = 9007199254740992" by simp
  show ?thesis using assms unfolding u by linarith
qed

lemma discount_chain:
  assumes o: "orig \<noteq> 0"
    and d: "pow2 (- 500) \<le> \<bar>orig - p\<bar>" "\<bar>orig - p\<bar> \<le> pow2 500"
    and r: "pow2 (- 500) \<le> \<bar>orig\<bar>" "\<bar>orig\<bar> \<le> pow2 500"
  shows "\<exists>c. d_mul (d_div (d_sub (Fin orig) (Fin p)) (Fin orig)) (Fin 100) = Fin c
           \<and> \<bar>c - (orig - p) / orig * 100\<bar> \<le> \<bar>(orig - p) / orig * 100\<bar> / 2 ^ 51"
proof -
  define x1 where "x1 = (orig - p) / orig"
  have X: "pow2 (- 1000) \<le> \<bar>x1\<bar>" "\<bar>x1\<bar> \<le> pow2 1000"
    unfolding x1_def using pow2_quotient_bounds [OF d r] by simp_all
  have m1: "pow2 (- 1010) \<le> pow2 (- 500)" "pow2 500 \<le> pow2 1010"
    by (rule pow2_mono, simp)+
  have "\<exists>a. fl_double (orig - p) = Fin a \<and> \<bar>a - (orig - p)\<bar> \<le> \<bar>orig - p\<bar> / 2 ^ 53"
    using d m1 by (intro fl_double_range) linarith+
  then obtain a where a: "fl_double (orig - p) = Fin a"
    and ea: "\<bar>a - (orig - p)\<bar> \<le> \<bar>orig - p\<bar> / 2 ^ 53" by blast
  define q where "q = a / orig"
  have "q - x1 = (a - (orig - p)) / orig" unfolding q_def x1_def by (simp add: diff_divide_distrib)
  then have "\<bar>q - x1\<bar> = \<bar>a - (orig - p)\<bar> / \<bar>orig\<bar>" by (simp add: abs_divide)
  also have "\<dots> \<le> (\<bar>orig - p\<bar> / 2 ^ 53) / \<bar>orig\<bar>"
    using ea o by (intro divide_right_mono) simp_all
  also have "\<dots> = \<bar>x1\<bar> / 2 ^ 53" unfolding x1_def by (simp add: abs_divide)
  finally have eq: "\<bar>q - x1\<bar> \<le> \<bar>x1\<bar> / 2 ^ 53" .
  note qr = rounding_keeps_range [OF eq]
  have m2: "pow2 (- 1010) * 2 \<le> pow2 (- 1000)" "pow2 1000 * 2 \<le> pow2 1010"
  proof -
    have "pow2 (- 1010) * 2 = pow2 (- 1009)" using pow2_Suc [of "- 1010"] by simp
    also have "\<dots> \<le> pow2 (- 1000)" by (rule pow2_mono) simp
    finally show "pow2 (- 1010) * 2 \<le> pow2 (- 1000)" .
    have "pow2 1000 * 2 = pow2 1001" using pow2_Suc [of 1000] by simp
    also have "\<dots> \<le> pow2 1010" by (rule pow2_mono) simp
    finally show "pow2 1000 * 2 \<le> pow2 1010" .
  qed
  have "\<exists>b. fl_double q = Fin b \<and> \<bar>b - q\<bar> \<le> \<bar>q\<bar> / 2 ^ 53"
    using qr X m2 by (intro fl_double_range) linarith+
  then obtain b where b: "fl_double q = Fin b" and eb: "\<bar>b - q\<bar> \<le> \<bar>q\<bar> / 2 ^ 53" by blast
  note br = rounding_keeps_range [OF eb]
  have m3: "pow2 (- 1010) * 4 \<le> pow2 (- 1000)" "pow2 1000 * 512 \<le> pow2 1010"
  proof -
    have "pow2 (- 1008) = pow2 (- 1010) * pow2 2" using pow2_add [of "- 1010" 2] by simp
    then have "pow2 (- 1010) * 4 = pow2 (- 1008)" by (simp add: pow2_def)
    also have "\<dots> \<le> pow2 (- 1000)" by (rule pow2_mono) simp
    finally show "pow2 (- 1010) * 4 \<le> pow2 (- 1000)" .
    have "pow2 1009 = pow2 1000 * pow2 9" using pow2_add [of 1000 9] by simp
    then have "pow2 1000 * 512 = pow2 1009" by (simp add: pow2_def)
    also have "\<dots> \<le> pow2 1010" by (rule pow2_mono) simp
    finally show "pow2 1000 * 512 \<le> pow2 1010" .
  qed
  have b100: "\<bar>b * 100\<bar> = \<bar>b\<bar> * 100" by (simp add: abs_mult)
  have "pow2 (- 1010) \<le> \<bar>b\<bar> * 100" "\<bar>b\<bar> * 100 \<le> pow2 1010"
    using br qr X m3 pow2_pos [of 1000] by linarith+
  then have "pow2 (- 1010) \<le> \<bar>b * 100\<bar>" "\<bar>b * 100\<bar> \<le> pow2 1010"
    unfolding b100 .
  then have "\<exists>c. fl_double (b * 100) = Fin c \<and> \<bar>c - b * 100\<bar> \<le> \<bar>b * 100\<bar> / 2 ^ 53"
    by (rule fl_double_range)
  then obtain c where c: "fl_double (b * 100) = Fin c"
    and ec: "\<bar>c - b * 100\<bar> \<le> \<bar>b * 100\<bar> / 2 ^ 53" by blast
  have "d_mul (d_div (d_sub (Fin orig) (Fin p)) (Fin orig)) (Fin 100) = Fin c"
    using a b c o by (simp add: q_def)
  moreover have "\<bar>c - x1 * 100\<bar> \<le> \<bar>x1 * 100\<bar> / 2 ^ 51"
    by (rule three_roundings [OF eq eb ec])
  ultimately show ?thesis unfolding x1_def by blast
qed

text \<open>
  \<^verbatim>\<open>Math.round\<close> of a number that is nearer to \<open>x\<close> than \<open>x\<close> is to the middle of its unit
  interval is \<open>x\<close> rounded half away from zero.
\<close>

lemma Math_round_away_from_tie:
  fixes c x :: rat
  assumes "\<bar>c - x\<bar> < \<bar>x - of_int \<lfloor>x\<rfloor> - 1 / 2\<bar>"
  shows "\<lfloor>c + 1 / 2\<rfloor> = round_half_away x"
proof -
  define k where "k = \<lfloor>x\<rfloor>"
  define f where "f = x - of_int k"
  have f: "0 \<le> f" "f < 1" unfolding f_def k_def by linarith+
  have x: "x = of_int k + f" unfolding f_def by simp
  have m: "\<bar>c - x\<bar> < \<bar>f - 1 / 2\<bar>" using assms unfolding f_def k_def .
  show ?thesis
  proof (cases "f < 1 / 2")
    case True
    have 1: "\<lfloor>c + 1 / 2\<rfloor> = k" using m True f x by (intro floor_unique) linarith+
    have 2: "\<lfloor>x + 1 / 2\<rfloor> = k" using True f x by (intro floor_unique) linarith+
    have "\<lfloor>- x + 1 / 2\<rfloor> = - k" using True f x by (intro floor_unique) simp_all
    then show ?thesis using 1 2 by (simp add: round_half_away_def)
  next
    case False
    with m have g: "1 / 2 < f" by linarith
    have "of_int k + 1 \<le> c + 1 / 2" "c + 1 / 2 < of_int k + 1 + 1"
      using m g f x by linarith+
    then have 1: "\<lfloor>c + 1 / 2\<rfloor> = k + 1" by (intro floor_unique) simp_all
    have "of_int k + 1 \<le> x + 1 / 2" "x + 1 / 2 < of_int k + 1 + 1"
      using g f x by linarith+
    then have 2: "\<lfloor>x + 1 / 2\<rfloor> = k + 1" by (intro floor_unique) simp_all
    have "- of_int k - 1 \<le> - x + 1 / 2" "- x + 1 / 2 < - of_int k - 1 + 1"
      using g f x by linarith+
    then have "\<lfloor>- x + 1 / 2\<rfloor> = - k - 1" by (intro floor_unique) simp_all
    then show ?thesis using 1 2 by (simp add: round_half_away_def)
  qed
qed


text \<open>The guard, the overflow and the value of the discount.\<close>

lemma discount_gated:
  assumes "originalPrice pr = None \<or> originalPrice pr = Some (Fin 0) \<or> originalPrice pr = Some NaN
    \<or> price pr = Fin 0 \<or> price pr = NaN"
  shows "discount pr = Fin 0"
  using assms by (auto simp add: discount_def split: option.splits)

lemma discount_computed:
  assumes "price pr = Fin p" "originalPrice pr = Some (Fin orig)" "p \<noteq> 0" "orig \<noteq> 0"
  shows "discount pr = Math_round (d_mul (d_div (d_sub (Fin orig) (Fin p)) (Fin orig)) (Fin 100))"
  using assms by (simp add: discount_def)

lemma discount_overflow:
  assumes "price pr = Fin p" "originalPrice pr = Some (Fin orig)" "p \<noteq> 0" "0 < orig"
    and "pow2 1024 \<le> orig - p"
  shows "discount pr = PInf"
proof -
  have "orig \<noteq> 0" using assms(4) by simp
  note discount_computed [OF assms(1,2,3) this]
  moreover have "d_sub (Fin orig) (Fin p) = PInf" using fl_double_overflow [OF assms(5)] by simp
  moreover have "d_div PInf (Fin orig) = PInf" using assms(4) by simp
  ultimately show ?thesis by simp
qed

lemma discount_value:
  assumes pr: "price pr = Fin p" "originalPrice pr = Some (Fin orig)" and p: "p \<noteq> 0"
    and r: "pow2 (- 500) \<le> \<bar>orig\<bar>" "\<bar>orig\<bar> \<le> pow2 500"
    and d: "p = orig \<or> pow2 (- 500) \<le> \<bar>orig - p\<bar> \<and> \<bar>orig - p\<bar> \<le> pow2 500"
  shows "\<exists>n. discount pr = Fin (of_int n)
    \<and> \<bar>of_int n - exact_percent p orig\<bar> \<le> 1 / 2 + \<bar>exact_percent p orig\<bar> / 2 ^ 51
    \<and> (\<bar>exact_percent p orig\<bar> / 2 ^ 51
          < \<bar>exact_percent p orig - of_int \<lfloor>exact_percent p orig\<rfloor> - 1 / 2\<bar>
        \<longrightarrow> n = round_half_away (exact_percent p orig))"
proof -
  define x where "x = exact_percent p orig"
  have o: "orig \<noteq> 0" using r(1) pow2_pos [of "- 500"] by auto
  note D = discount_computed [OF pr p o]
  have "\<exists>c. d_mul (d_div (d_sub (Fin orig) (Fin p)) (Fin orig)) (Fin 100) = Fin c
          \<and> \<bar>c - x\<bar> \<le> \<bar>x\<bar> / 2 ^ 51"
  proof (cases "p = orig")
    case True
    then have "x = 0" by (simp add: x_def exact_percent_def)
    moreover have "d_mul (d_div (d_sub (Fin orig) (Fin p)) (Fin orig)) (Fin 100) = Fin 0"
      using True o by (simp add: fl_double_zero)
    ultimately show ?thesis by simp
  next
    case False
    with d have "pow2 (- 500) \<le> \<bar>orig - p\<bar>" "\<bar>orig - p\<bar> \<le> pow2 500" by simp_all
    from discount_chain [OF o this r] show ?thesis unfolding x_def exact_percent_def .
  qed
  then obtain c where c: "d_mul (d_div (d_sub (Fin orig) (Fin p)) (Fin orig)) (Fin 100) = Fin c"
    and e: "\<bar>c - x\<bar> \<le> \<bar>x\<bar> / 2 ^ 51" by blast
  define n where "n = \<lfloor>c + 1 / 2\<rfloor>"
  have 1: "discount pr = Fin (of_int n)" unfolding D c n_def by simp
  have "of_int n \<le> c + 1 / 2" "c + 1 / 2 < of_int n + 1" unfolding n_def by linarith+
  then have 2: "\<bar>of_int n - x\<bar> \<le> 1 / 2 + \<bar>x\<bar> / 2 ^ 51" using e by linarith
  have 3: "n = round_half_away x" if "\<bar>x\<bar> / 2 ^ 51 < \<bar>x - of_int \<lfloor>x\<rfloor> - 1 / 2\<bar>"
    unfolding n_def using e that by (intro Math_round_away_from_tie) linarith
  from 1 2 3 show ?thesis unfolding x_def by blast
qed

text \<open>
  Integer prices: a percentage that is not a tie is at least \<open>1 / (2 \<sdot> originalPrice)\<close> away
  from one.
\<close>

lemma integer_tie_margin:
  fixes d orig :: int and x :: rat
  assumes o: "0 < orig" and x: "x = of_int (d * 100) / of_int orig"
    and nt: "x - of_int \<lfloor>x\<rfloor> \<noteq> (1 / 2 :: rat)"
  shows "1 / (2 * of_int orig) \<le> \<bar>x - of_int \<lfloor>x\<rfloor> - 1 / 2\<bar>"
proof -
  define N where "N = d * 200 - (2 * \<lfloor>x\<rfloor> + 1) * orig"
  have ro: "(0::rat) < of_int orig" using o by simp
  have eq: "x - of_int \<lfloor>x\<rfloor> - 1 / 2 = of_int N / (2 * of_int orig)"
    unfolding N_def x using ro by (simp add: field_simps)
  have "N \<noteq> 0"
  proof
    assume "N = 0"
    with eq have "x - of_int \<lfloor>x\<rfloor> - 1 / 2 = 0" by simp
    with nt show False by simp
  qed
  then have "1 \<le> \<bar>N\<bar>" by simp
  then have "(1::rat) \<le> \<bar>of_int N\<bar>" by (metis of_int_1 of_int_abs of_int_le_iff)
  then have "1 / (2 * of_int orig) \<le> \<bar>of_int N :: rat\<bar> / (2 * of_int orig)"
    using ro by (intro divide_right_mono) simp_all
  also have "\<dots> = \<bar>of_int N / (2 * of_int orig) :: rat\<bar>" using ro by (simp add: abs_divide)
  finally show ?thesis unfolding eq .
qed

lemma pow2_int_range:
  fixes k :: int
  assumes "k \<noteq> 0" "\<bar>k\<bar> \<le> 2 ^ 53"
  shows "pow2 (- 500) \<le> \<bar>of_int k\<bar> \<and> \<bar>of_int k\<bar> \<le> pow2 500"
proof -
  have "1 \<le> \<bar>k\<bar>" using assms(1) by simp
  then have "(1::rat) \<le> \<bar>of_int k\<bar>" by (metis of_int_1 of_int_abs of_int_le_iff)
  moreover have "pow2 (- 500) \<le> pow2 0" by (rule pow2_mono) simp
  moreover have "pow2 0 = 1" by (simp add: pow2_def)
  ultimately have lo: "pow2 (- 500) \<le> \<bar>of_int k\<bar>" by linarith
  have "\<bar>of_int k\<bar> \<le> (2::rat) ^ 53" using assms(2)
    by (metis of_int_abs of_int_le_iff of_int_numeral of_int_power)
  moreover have "pow2 53 \<le> pow2 500" by (rule pow2_mono) simp
  moreover have "pow2 53 = 2 ^ 53" by (simp add: pow2_def)
  ultimately have "\<bar>of_int k\<bar> \<le> pow2 500" by linarith
  with lo show ?thesis by simp
qed

lemma discount_integer_prices:
  fixes p orig :: int
  assumes pr: "price pr = Fin (of_int p)" "originalPrice pr = Some (Fin (of_int orig))"
    and p: "p \<noteq> 0" and o: "0 < orig" "orig \<le> 2 ^ 53" and d: "\<bar>orig - p\<bar> * 200 < 2 ^ 51"
  shows "\<exists>n. discount pr = Fin (of_int n)
    \<and> (if exact_percent (of_int p) (of_int orig)
            - of_int \<lfloor>exact_percent (of_int p) (of_int orig)\<rfloor> = 1 / 2
        then n = \<lfloor>exact_percent (of_int p) (of_int orig)\<rfloor>
           \<or> n = \<lfloor>exact_percent (of_int p) (of_int orig)\<rfloor> + 1
        else n = spec_discountPercent (of_int p) (Some (of_int orig)))"
proof -
  define x where "x = exact_percent (of_int p) (of_int orig)"
  have ro: "(0::rat) < of_int orig" using o by simp
  have xd: "x = of_int ((orig - p) * 100) / of_int orig"
    unfolding x_def exact_percent_def by simp
  have rp: "(of_int p :: rat) \<noteq> 0" using p by simp
  have r: "pow2 (- 500) \<le> \<bar>of_int orig :: rat\<bar>" "\<bar>of_int orig :: rat\<bar> \<le> pow2 500"
    using pow2_int_range [of orig] o by simp_all
  have dd: "(of_int p :: rat) = of_int orig
      \<or> pow2 (- 500) \<le> \<bar>of_int orig - of_int p :: rat\<bar> \<and> \<bar>of_int orig - of_int p :: rat\<bar> \<le> pow2 500"
  proof (cases "p = orig")
    case True
    then show ?thesis by simp
  next
    case False
    then have "orig - p \<noteq> 0" by simp
    moreover have "\<bar>orig - p\<bar> \<le> 2 ^ 53" using d by simp
    ultimately show ?thesis using pow2_int_range [of "orig - p"] by simp
  qed
  from discount_value [OF pr rp r dd] obtain n where n: "discount pr = Fin (of_int n)"
    and e: "\<bar>of_int n - x\<bar> \<le> 1 / 2 + \<bar>x\<bar> / 2 ^ 51"
    and a: "\<bar>x\<bar> / 2 ^ 51 < \<bar>x - of_int \<lfloor>x\<rfloor> - 1 / 2\<bar> \<Longrightarrow> n = round_half_away x"
    unfolding x_def by blast
  define dq :: rat where "dq = of_int (orig - p)"
  have "x = dq * 100 / of_int orig" unfolding xd dq_def by simp
  then have "\<bar>x\<bar> = \<bar>dq\<bar> * 100 / of_int orig" using ro by (simp add: abs_divide abs_mult)
  then have "\<bar>x\<bar> / 2 ^ 51 = (\<bar>dq\<bar> * 200 / 2 ^ 51) * (1 / (2 * of_int orig))" by simp
  also have "\<dots> < 1 * (1 / (2 * of_int orig))"
  proof (rule mult_strict_right_mono)
    have "(of_int (\<bar>orig - p\<bar> * 200) :: rat) < of_int (2 ^ 51)" using d by (simp only: of_int_less_iff)
    moreover have "(of_int (\<bar>orig - p\<bar> * 200) :: rat) = \<bar>dq\<bar> * 200" unfolding dq_def by simp
    ultimately show "\<bar>dq\<bar> * 200 / 2 ^ 51 < 1" by simp
    show "(0::rat) < 1 / (2 * of_int orig)" using ro by simp
  qed
  finally have small: "\<bar>x\<bar> / 2 ^ 51 < 1 / (2 * of_int orig)" by simp
  have "1 \<le> orig" using o by simp
  then have "(1::rat) \<le> of_int orig" by (metis of_int_1 of_int_le_iff)
  then have half: "1 / (2 * of_int orig) \<le> (1 / 2 :: rat)" using ro by (simp add: field_simps)
  show ?thesis
  proof (cases "x - of_int \<lfloor>x\<rfloor> = 1 / 2")
    case True
    have "\<bar>of_int n - x\<bar> < 1" using e small half by linarith
    with True have "of_int \<lfloor>x\<rfloor> - 1 < (of_int n :: rat)" "(of_int n :: rat) < of_int \<lfloor>x\<rfloor> + 2"
      by linarith+
    then have "of_int (\<lfloor>x\<rfloor> - 1) < (of_int n :: rat)" "(of_int n :: rat) < of_int (\<lfloor>x\<rfloor> + 2)"
      by simp_all
    then have "\<lfloor>x\<rfloor> - 1 < n" "n < \<lfloor>x\<rfloor> + 2" by (simp_all only: of_int_less_iff)
    then have "n = \<lfloor>x\<rfloor> \<or> n = \<lfloor>x\<rfloor> + 1" by linarith
    with n True show ?thesis unfolding x_def by auto
  next
    case False
    from integer_tie_margin [OF o(1) xd False] small
    have "\<bar>x\<bar> / 2 ^ 51 < \<bar>x - of_int \<lfloor>x\<rfloor> - 1 / 2\<bar>" by linarith
    then have "n = round_half_away x" by (rule a)
    also have "\<dots> = spec_discountPercent (of_int p) (Some (of_int orig))"
      using ro by (simp add: spec_discountPercent_def x_def exact_percent_def)
    finally show ?thesis using n False unfolding x_def by auto
  qed
qed


text \<open>The discount of given prices, one rounding at a time.\<close>

lemma fl_double_nearest:
  assumes "\<bar>nearest x\<bar> \<le> 2 ^ 20"
  shows "fl_double x = Fin (nearest x)"
proof (cases "x = 0")
  case True
  then show ?thesis by (simp add: fl_double_def nearest_def round_half_even_def)
next
  case False
  have "pow2 20 < pow2 1024" using pow2_mono [of 21 1024] pow2_Suc [of 20] pow2_pos [of 20] by simp
  moreover have "pow2 20 = 2 ^ 20" by (simp add: pow2_def)
  ultimately have "\<not> pow2 1024 \<le> \<bar>nearest x\<bar>" using assms by linarith
  with False show ?thesis by (simp add: fl_double_def)
qed

lemma discount_steps:
  assumes pr: "price pr = Fin p" "originalPrice pr = Some (Fin orig)" "p \<noteq> 0" "orig \<noteq> 0"
    and a: "nearest (orig - p) = a" "\<bar>a\<bar> \<le> 2 ^ 20"
    and b: "nearest (a / orig) = b" "\<bar>b\<bar> \<le> 2 ^ 20"
    and c: "nearest (b * 100) = c" "\<bar>c\<bar> \<le> 2 ^ 20"
  shows "discount pr = Fin (of_int \<lfloor>c + 1 / 2\<rfloor>)"
proof -
  have "fl_double (orig - p) = Fin a" using fl_double_nearest [of "orig - p"] a by simp
  moreover have "fl_double (a / orig) = Fin b" using fl_double_nearest [of "a / orig"] b by simp
  moreover have "fl_double (b * 100) = Fin c" using fl_double_nearest [of "b * 100"] c by simp
  ultimately show ?thesis unfolding discount_computed [OF pr] using pr(4) by simp
qed

lemma pow2_500_range:
  assumes "1 / 2 ^ 20 \<le> \<bar>x\<bar>" "\<bar>x\<bar> \<le> 2 ^ 20"
  shows "pow2 (- 500) \<le> \<bar>x\<bar> \<and> \<bar>x\<bar> \<le> pow2 500"
proof -
  have "pow2 (- 500) \<le> pow2 (- 20)" "pow2 20 \<le> pow2 500" by (rule pow2_mono, simp)+
  moreover have "pow2 (- 20) = 1 / 2 ^ 20" "pow2 20 = 2 ^ 20" by (simp_all add: pow2_def)
  ultimately show ?thesis using assms by linarith
qed

lemma discount_800_of_1000: "discount (mkPricing 800 (Some 1000)) = Fin 20"
proof -
  have pr: "price (mkPricing 800 (Some 1000)) = Fin (of_int 800)"
    "originalPrice (mkPricing 800 (Some 1000)) = Some (Fin (of_int 1000))"
    by (simp_all add: mkPricing_def)
  have nt: "exact_percent (of_int 800) (of_int 1000)
      - of_int \<lfloor>exact_percent (of_int 800) (of_int 1000)\<rfloor> \<noteq> 1 / 2" by code_simp
  have sp: "spec_discountPercent (of_int 800) (Some (of_int 1000)) = 20" by code_simp
  from discount_integer_prices [OF pr] nt sp show ?thesis by auto
qed

text \<open>
  C5, as the code has it. (1) The discount is 0 when the original price is
  \<^verbatim>\<open>null\<close>, 0 or NaN, or the price is 0 or NaN. (2) For integer prices, an original price
  from 1 to \<open>2\<^sup>5\<^sup>3\<close> and a price that is not 0 and less than \<open>2\<^sup>5\<^sup>1 / 200\<close> away from it,
  the discount is the integer of the claim, the exact percentage
  \<open>(originalPrice - price) / originalPrice \<sdot> 100\<close> rounded half away from zero, unless the
  exact percentage lies halfway between two integers; then the discount is one of these
  two. (3) For all prices, a negative original price included, where the original price
  and the difference \<open>originalPrice - price\<close> have a magnitude from \<open>2\<^sup>-\<^sup>5\<^sup>0\<^sup>0\<close> to \<open>2\<^sup>5\<^sup>0\<^sup>0\<close> (or
  the two prices are equal) and the price is not 0, the discount is an integer at most
  \<open>1 / 2 + \<bar>x\<bar> / 2\<^sup>5\<^sup>1\<close> away from the exact percentage \<open>x\<close>, and it is \<open>x\<close> rounded half away
  from zero when \<open>x\<close> is farther than \<open>\<bar>x\<bar> / 2\<^sup>5\<^sup>1\<close> from the middle of its unit interval.
  (4) Where the original price is positive, the price is not 0 and the difference is
  \<open>2\<^sup>1\<^sup>0\<^sup>2\<^sup>4\<close> or more, the discount is \<open>+\<infinity>\<close>. (5) A price of 800 with an original price of
  1000 gives 20, and no original price gives 0.
\<close>

theorem discount_percent:
  "(originalPrice pr = None \<or> originalPrice pr = Some (Fin 0) \<or> originalPrice pr = Some NaN
      \<or> price pr = Fin 0 \<or> price pr = NaN
    \<longrightarrow> discount pr = Fin 0)
   \<and> (price pr = Fin (of_int p) \<and> originalPrice pr = Some (Fin (of_int orig))
       \<and> p \<noteq> 0 \<and> 0 < orig \<and> orig \<le> 2 ^ 53 \<and> \<bar>orig - p\<bar> * 200 < 2 ^ 51
    \<longrightarrow> (\<exists>n. discount pr = Fin (of_int n)
          \<and> (if exact_percent (of_int p) (of_int orig)
                  - of_int \<lfloor>exact_percent (of_int p) (of_int orig)\<rfloor> = 1 / 2
              then n = \<lfloor>exact_percent (of_int p) (of_int orig)\<rfloor>
                 \<or> n = \<lfloor>exact_percent (of_int p) (of_int orig)\<rfloor> + 1
              else n = spec_discountPercent (of_int p) (Some (of_int orig)))))
   \<and> (price pr = Fin q \<and> originalPrice pr = Some (Fin r) \<and> q \<noteq> 0
       \<and> pow2 (- 500) \<le> \<bar>r\<bar> \<and> \<bar>r\<bar> \<le> pow2 500
       \<and> (q = r \<or> pow2 (- 500) \<le> \<bar>r - q\<bar> \<and> \<bar>r - q\<bar> \<le> pow2 500)
    \<longrightarrow> (\<exists>n. discount pr = Fin (of_int n)
          \<and> \<bar>of_int n - exact_percent q r\<bar> \<le> 1 / 2 + \<bar>exact_percent q r\<bar> / 2 ^ 51
          \<and> (\<bar>exact_percent q r\<bar> / 2 ^ 51
                < \<bar>exact_percent q r - of_int \<lfloor>exact_percent q r\<rfloor> - 1 / 2\<bar>
              \<longrightarrow> n = round_half_away (exact_percent q r))))
   \<and> (price pr = Fin q \<and> originalPrice pr = Some (Fin r) \<and> q \<noteq> 0 \<and> 0 < r
       \<and> pow2 1024 \<le> r - q
    \<longrightarrow> discount pr = PInf)
   \<and> discount (mkPricing 800 (Some 1000)) = Fin 20
   \<and> discount (mkPricing 800 None) = Fin 0"
proof (intro conjI impI)
  assume "originalPrice pr = None \<or> originalPrice pr = Some (Fin 0) \<or> originalPrice pr = Some NaN
      \<or> price pr = Fin 0 \<or> price pr = NaN"
  then show "discount pr = Fin 0" by (rule discount_gated)
next
  assume "price pr = Fin (of_int p) \<and> originalPrice pr = Some (Fin (of_int orig))
       \<and> p \<noteq> 0 \<and> 0 < orig \<and> orig \<le> 2 ^ 53 \<and> \<bar>orig - p\<bar> * 200 < 2 ^ 51"
  then show "\<exists>n. discount pr = Fin (of_int n)
          \<and> (if exact_percent (of_int p) (of_int orig)
                  - of_int \<lfloor>exact_percent (of_int p) (of_int orig)\<rfloor> = 1 / 2
              then n = \<lfloor>exact_percent (of_int p) (of_int orig)\<rfloor>
                 \<or> n = \<lfloor>exact_percent (of_int p) (of_int orig)\<rfloor> + 1
              else n = spec_discountPercent (of_int p) (Some (of_int orig)))"
    by (elim conjE) (rule discount_integer_prices)
next
  assume "price pr = Fin q \<and> originalPrice pr = Some (Fin r) \<and> q \<noteq> 0
       \<and> pow2 (- 500) \<le> \<bar>r\<bar> \<and> \<bar>r\<bar> \<le> pow2 500
       \<and> (q = r \<or> pow2 (- 500) \<le> \<bar>r - q\<bar> \<and> \<bar>r - q\<bar> \<le> pow2 500)"
  then show "\<exists>n. discount pr = Fin (of_int n)
          \<and> \<bar>of_int n - exact_percent q r\<bar> \<le> 1 / 2 + \<bar>exact_percent q r\<bar> / 2 ^ 51
          \<and> (\<bar>exact_percent q r\<bar> / 2 ^ 51
                < \<bar>exact_percent q r - of_int \<lfloor>exact_percent q r\<rfloor> - 1 / 2\<bar>
              \<longrightarrow> n = round_half_away (exact_percent q r))"
    by (elim conjE) (rule discount_value)
next
  assume "price pr = Fin q \<and> originalPrice pr = Some (Fin r) \<and> q \<noteq> 0 \<and> 0 < r
       \<and> pow2 1024 \<le> r - q"
  then show "discount pr = PInf" by (elim conjE) (rule discount_overflow)
next
  show "discount (mkPricing 800 (Some 1000)) = Fin 20" by (rule discount_800_of_1000)
next
  show "discount (mkPricing 800 None) = Fin 0"
    by (rule discount_gated) (simp add: mkPricing_def)
qed

text \<open>
  The theorem at given prices: 800 of 1000, 999 of 1000 and 1000 of 800 by (2), 19.99 of
  29.99 by (3), no original price and a price of 0 by (1), and \<open>-2\<^sup>1\<^sup>0\<^sup>2\<^sup>3\<close> of \<open>2\<^sup>1\<^sup>0\<^sup>2\<^sup>3\<close>
  by (4).
\<close>

theorem discount_percent_witness:
  "discount (mkPricing 800 (Some 1000)) = Fin 20
   \<and> discount (mkPricing 999 (Some 1000)) = Fin 0
   \<and> discount (mkPricing 1000 (Some 800)) = Fin (- 25)
   \<and> discount (mkPricing (1999 / 100) (Some (2999 / 100))) = Fin 33
   \<and> discount (mkPricing 800 None) = Fin 0
   \<and> discount (mkPricing 0 (Some 1000)) = Fin 0
   \<and> discount (mkPricing (- pow2 1023) (Some (pow2 1023))) = PInf"
proof -
  have I: "discount (mkPricing (of_int p) (Some (of_int orig)))
      = Fin (of_int (spec_discountPercent (of_int p) (Some (of_int orig))))"
    if "p \<noteq> 0" "0 < orig" "orig \<le> 2 ^ 53" "\<bar>orig - p\<bar> * 200 < 2 ^ 51"
      and "exact_percent (of_int p) (of_int orig)
        - of_int \<lfloor>exact_percent (of_int p) (of_int orig)\<rfloor> \<noteq> 1 / 2"
    for p orig :: int
    using discount_percent [of "mkPricing (of_int p) (Some (of_int orig))" p orig,
        THEN conjunct2, THEN conjunct1] that
    by (auto simp add: mkPricing_def)
  have 1: "discount (mkPricing 800 (Some 1000)) = Fin 20"
  proof -
    have "exact_percent (of_int 800) (of_int 1000)
      - of_int \<lfloor>exact_percent (of_int 800) (of_int 1000)\<rfloor> \<noteq> 1 / 2" by code_simp
    moreover have "spec_discountPercent (of_int 800) (Some (of_int 1000)) = 20" by code_simp
    ultimately show ?thesis using I [of 800 1000] by simp
  qed
  have 2: "discount (mkPricing 999 (Some 1000)) = Fin 0"
  proof -
    have "exact_percent (of_int 999) (of_int 1000)
      - of_int \<lfloor>exact_percent (of_int 999) (of_int 1000)\<rfloor> \<noteq> 1 / 2" by code_simp
    moreover have "spec_discountPercent (of_int 999) (Some (of_int 1000)) = 0" by code_simp
    ultimately show ?thesis using I [of 999 1000] by simp
  qed
  have 3: "discount (mkPricing 1000 (Some 800)) = Fin (- 25)"
  proof -
    have "exact_percent (of_int 1000) (of_int 800)
      - of_int \<lfloor>exact_percent (of_int 1000) (of_int 800)\<rfloor> \<noteq> 1 / 2" by code_simp
    moreover have "spec_discountPercent (of_int 1000) (Some (of_int 800)) = - 25" by code_simp
    ultimately show ?thesis using I [of 1000 800] by simp
  qed
  have 4: "discount (mkPricing (1999 / 100) (Some (2999 / 100))) = Fin 33"
  proof -
    have h: "pow2 (- 500) \<le> \<bar>2999 / 100\<bar>" "\<bar>2999 / 100\<bar> \<le> pow2 500"
      "pow2 (- 500) \<le> \<bar>2999 / 100 - 1999 / 100\<bar>" "\<bar>2999 / 100 - 1999 / 100\<bar> \<le> pow2 500"
      using pow2_500_range [of "2999 / 100"] pow2_500_range [of "2999 / 100 - 1999 / 100"]
      by simp_all
    have m: "\<bar>exact_percent (1999 / 100) (2999 / 100)\<bar> / 2 ^ 51
        < \<bar>exact_percent (1999 / 100) (2999 / 100)
            - of_int \<lfloor>exact_percent (1999 / 100) (2999 / 100)\<rfloor> - 1 / 2\<bar>" by code_simp
    have v: "round_half_away (exact_percent (1999 / 100) (2999 / 100)) = 33" by code_simp
    from discount_percent [of "mkPricing (1999 / 100) (Some (2999 / 100))" _ _ "1999 / 100" "2999 / 100",
        THEN conjunct2, THEN conjunct2, THEN conjunct1] h m v
    show ?thesis by (auto simp add: mkPricing_def)
  qed
  have 5: "discount (mkPricing 800 None) = Fin 0"
    using discount_percent [of "mkPricing 800 None", THEN conjunct1]
    by (simp add: mkPricing_def)
  have 6: "discount (mkPricing 0 (Some 1000)) = Fin 0"
    using discount_percent [of "mkPricing 0 (Some 1000)", THEN conjunct1]
    by (simp add: mkPricing_def)
  have 7: "discount (mkPricing (- pow2 1023) (Some (pow2 1023))) = PInf"
  proof -
    have "pow2 1024 \<le> pow2 1023 - (- pow2 1023)" using pow2_Suc [of 1023] by simp
    with discount_percent [of "mkPricing (- pow2 1023) (Some (pow2 1023))" _ _ "- pow2 1023" "pow2 1023",
        THEN conjunct2, THEN conjunct2, THEN conjunct2, THEN conjunct1] pow2_pos [of 1023]
    show ?thesis by (simp add: mkPricing_def)
  qed
  from 1 2 3 4 5 6 7 show ?thesis by (simp only: simp_thms)
qed

text \<open>The prices \<open>-2\<^sup>1\<^sup>0\<^sup>2\<^sup>3\<close> of \<open>2\<^sup>1\<^sup>0\<^sup>2\<^sup>3\<close>: the claim gives 200, the code \<open>+\<infinity>\<close>.\<close>

lemma spec_discountPercent_overflow:
  "spec_discountPercent (- pow2 1023) (Some (pow2 1023)) = 200"
proof -
  have "(pow2 1023 - - pow2 1023) / pow2 1023 * 100 = 200" using pow2_pos [of 1023] by simp
  moreover have "round_half_away 200 = 200" by code_simp
  ultimately show ?thesis using pow2_pos [of 1023] by (simp add: spec_discountPercent_def)
qed

lemma discount_overflow_example:
  "discount (mkPricing (- pow2 1023) (Some (pow2 1023))) = PInf"
proof (rule discount_overflow)
  show "price (mkPricing (- pow2 1023) (Some (pow2 1023))) = Fin (- pow2 1023)"
    by (simp add: mkPricing_def)
  show "originalPrice (mkPricing (- pow2 1023) (Some (pow2 1023))) = Some (Fin (pow2 1023))"
    by (simp add: mkPricing_def)
  show "- pow2 1023 \<noteq> 0" "0 < pow2 1023" using pow2_pos [of 1023] by simp_all
  show "pow2 1024 \<le> pow2 1023 - - pow2 1023" using pow2_Suc [of 1023] by simp
qed

text \<open>
  C5 as stated fails. A negative original price: 50 of -100 gives 150, where the claim
  gives 0. A price of 0: 0 of 1000 gives 0, where the claim gives 100. A tie: 143 of 200
  is exactly 28.5, the quotient \<^verbatim>\<open>57 / 200\<close> is rounded down to a number below 0.285, the
  product is 28.499999999999996 and the discount 28, where the claim gives 29. A negative
  tie: 201 of 200 is exactly -0.5, which \<^verbatim>\<open>Math.round\<close> takes to 0, where the claim gives
  -1. An overflow: \<open>-2\<^sup>1\<^sup>0\<^sup>2\<^sup>3\<close> of \<open>2\<^sup>1\<^sup>0\<^sup>2\<^sup>3\<close> gives \<open>+\<infinity>\<close>, where the claim gives 200.
\<close>

theorem discount_percent_counterexample:
  "discount (mkPricing 50 (Some (- 100))) = Fin 150
   \<and> spec_discountPercent 50 (Some (- 100)) = 0
   \<and> discount (mkPricing 0 (Some 1000)) = Fin 0
   \<and> spec_discountPercent 0 (Some 1000) = 100
   \<and> discount (mkPricing 143 (Some 200)) = Fin 28
   \<and> spec_discountPercent 143 (Some 200) = 29
   \<and> discount (mkPricing 201 (Some 200)) = Fin 0
   \<and> spec_discountPercent 201 (Some 200) = - 1
   \<and> discount (mkPricing (- pow2 1023) (Some (pow2 1023))) = PInf
   \<and> spec_discountPercent (- pow2 1023) (Some (pow2 1023)) = 200"
proof -
  have n1: "nearest (- 100 - 50) = - 150" "nearest (- 150 / - 100) = 3 / 2"
    "nearest (3 / 2 * 100) = 150" by code_simp+
  have f1: "\<lfloor>(150::rat) + 1 / 2\<rfloor> = 150" by code_simp
  have "discount (mkPricing 50 (Some (- 100))) = Fin (of_int \<lfloor>(150::rat) + 1 / 2\<rfloor>)"
    by (rule discount_steps [where p = 50 and orig = "- 100", OF _ _ _ _ n1(1) _ n1(2) _ n1(3)])
      (simp_all add: mkPricing_def)
  then have 1: "discount (mkPricing 50 (Some (- 100))) = Fin 150" unfolding f1 by simp
  have 2: "spec_discountPercent 50 (Some (- 100)) = 0" by code_simp
  have 3: "discount (mkPricing 0 (Some 1000)) = Fin 0"
    by (simp add: discount_def mkPricing_def)
  have 4: "spec_discountPercent 0 (Some 1000) = 100" by code_simp
  have n2: "nearest (200 - 143) = 57"
    "nearest (57 / 200) = 5134103575202365 / 18014398509481984"
    "nearest (5134103575202365 / 18014398509481984 * 100)
       = 8022036836253695 / 281474976710656" by code_simp+
  have "discount (mkPricing 143 (Some 200))
      = Fin (of_int \<lfloor>(8022036836253695 / 281474976710656 :: rat) + 1 / 2\<rfloor>)"
    by (rule discount_steps [where p = 143 and orig = 200, OF _ _ _ _ n2(1) _ n2(2) _ n2(3)])
      (simp_all add: mkPricing_def)
  moreover have "\<lfloor>(8022036836253695 / 281474976710656 :: rat) + 1 / 2\<rfloor> = 28" by code_simp
  ultimately have 5: "discount (mkPricing 143 (Some 200)) = Fin 28" by (simp only: of_int_numeral)
  have 6: "spec_discountPercent 143 (Some 200) = 29" by code_simp
  have n3: "nearest (200 - 201) = - 1"
    "nearest (- 1 / 200) = - 5764607523034235 / 1152921504606846976"
    "nearest (- 5764607523034235 / 1152921504606846976 * 100) = - 1 / 2" by code_simp+
  have "discount (mkPricing 201 (Some 200)) = Fin (of_int \<lfloor>(- 1 / 2 :: rat) + 1 / 2\<rfloor>)"
    by (rule discount_steps [where p = 201 and orig = 200, OF _ _ _ _ n3(1) _ n3(2) _ n3(3)])
      (simp_all add: mkPricing_def)
  moreover have "\<lfloor>(- 1 / 2 :: rat) + 1 / 2\<rfloor> = 0" by code_simp
  ultimately have 7: "discount (mkPricing 201 (Some 200)) = Fin 0" by (simp only: of_int_0)
  have 8: "spec_discountPercent 201 (Some 200) = - 1" by code_simp
  from 1 2 3 4 5 6 7 8 discount_overflow_example spec_discountPercent_overflow
  show ?thesis by (simp only: simp_thms)
qed

end
